theory Spec2Isabelle
  imports Main
begin

section \<open>Data model\<close>

text \<open>
  The entry point \<^verbatim>\<open>src/main.ts\<close> evaluates the dependency changes of a pull request
  against a policy.  The types \<^verbatim>\<open>Change\<close>, \<^verbatim>\<open>Severity\<close> and the configuration are
  declared in modules imported by \<^verbatim>\<open>main.ts\<close>; their fields are the ones \<^verbatim>\<open>main.ts\<close>
  reads, completed by the data model of the specification.
\<close>

datatype severity = Critical | High | Moderate | Low

text \<open>The configuration value \<^verbatim>\<open>fail_on_severity\<close>: a severity or the string \<^verbatim>\<open>'none'\<close>.\<close>

datatype fail_on = FailNone | FailOn severity

datatype scope = Runtime | Development

record vulnerability =
  severity :: severity
  advisory_id :: string
  advisory_summary :: string
  advisory_url :: string

text \<open>
  \<^verbatim>\<open>change_type\<close> is a string: \<^verbatim>\<open>renderScannedDependency\<close> reads it as one and tests it
  against the two known values.  \<^verbatim>\<open>vulnerabilities\<close> is optional: \<^verbatim>\<open>run\<close> tests it
  against \<^verbatim>\<open>undefined\<close> (\<open>None\<close>).  A \<^verbatim>\<open>null\<close> license is \<open>None\<close>.
\<close>

record change =
  manifest :: string
  name :: string
  version :: string
  change_type :: string
  scope :: scope
  license :: "string option"
  vulnerabilities :: "vulnerability list option"

record config =
  fail_on_severity :: fail_on
  fail_on_scopes :: "scope list"
  allow_ghsas :: "string list"
  allow_licenses :: "string list"
  deny_licenses :: "string list"
  vulnerability_check :: bool
  license_check :: bool
  comment_summary_in_pr :: bool

text \<open>The result of \<^verbatim>\<open>getInvalidLicenseChanges\<close>, read by its three keys.\<close>

record invalid_license_changes =
  forbidden :: "change list"
  unresolved :: "change list"
  unlicensed :: "change list"

text \<open>
  A thrown value, as the \<^verbatim>\<open>catch\<close> block of \<^verbatim>\<open>run\<close> tells them apart: a
  \<^verbatim>\<open>RequestError\<close> with its status and message, any other \<^verbatim>\<open>Error\<close> with its message,
  or a value that is not an \<^verbatim>\<open>Error\<close>.
\<close>

datatype error = RequestError nat string | Error string | NonError

section \<open>Output of the action\<close>

text \<open>
  Terminal styling and the glyphs of the printed lines are not modelled: a message is
  the constant text or the line template it comes from, with the values interpolated.
\<close>

datatype message =
    NoDependencyChangesFound
  | CouldNotObtainDependencyData
  | NotSupportedOnRepository string string
  | ErrorMessage string
  | UnexpectedFatalError
  | VulnerablePackagesDetected
  | NoVulnerablePackages severity
  | VulnerabilityLine string string string string "string \<times> severity"
  | AdvisoryUrlLine string
  | IncompatibleLicensesHeader
  | IncompatibleLicensesDetected
  | LicenseValidityHeader
  | LicenseValidityUndetermined
  | LicenseLine string string string "string option"
  | NoLicenseHeader
  | NoLicenseLine string string string
  | FileLine string
  | DependencyLine "string \<times> string \<times> string \<times> string"

text \<open>
  The calls \<^verbatim>\<open>run\<close> makes on \<^verbatim>\<open>@actions/core\<close>, on the summary module and on
  \<^verbatim>\<open>commentPr\<close>, in the order they are made.  \<open>SummaryWrite\<close> is the summary written
  by \<^verbatim>\<open>core.summary.write\<close>: the call that has done its work, not the call begun.
\<close>

datatype event =
    Info message
  | Warning message
  | SetFailed message
  | AddSummaryToSummary "change list" invalid_license_changes config
  | AddChangeVulnerabilitiesToSummary "change list" severity
  | AddLicensesToSummary invalid_license_changes config
  | AddScannedDependencies "change list"
  | CommentPr
  | SummaryWrite

text \<open>
  The state of one run: whether \<^verbatim>\<open>core.setFailed\<close> has marked the run failed, the
  calls made so far, and the errors of promises that were rejected and that nothing
  handles.
\<close>

record action_state =
  failed :: bool
  events :: "event list"
  unhandled :: "error list"

definition initial_state :: action_state where
  "initial_state = \<lparr>failed = False, events = [], unhandled = []\<rparr>"

definition emit :: "event \<Rightarrow> action_state \<Rightarrow> action_state" where
  "emit e st = st\<lparr>events := events st @ [e]\<rparr>"

definition info :: "message \<Rightarrow> action_state \<Rightarrow> action_state" where
  "info m st = emit (Info m) st"

definition warning :: "message \<Rightarrow> action_state \<Rightarrow> action_state" where
  "warning m st = emit (Warning m) st"

definition setFailed :: "message \<Rightarrow> action_state \<Rightarrow> action_state" where
  "setFailed m st = (emit (SetFailed m) st)\<lparr>failed := True\<rparr>"

text \<open>
  A statement that may throw: the error thrown, if any, and the state when it stopped.
\<close>

type_synonym stmt = "action_state \<Rightarrow> error option \<times> action_state"

text \<open>A \<^verbatim>\<open>for ... of\<close> loop whose body may throw: the first throw ends the loop.\<close>

fun for_of :: "('a \<Rightarrow> stmt) \<Rightarrow> 'a list \<Rightarrow> stmt" where
  "for_of body [] st = (None, st)"
| "for_of body (x # xs) st =
     (case body x st of
        (Some e, st') \<Rightarrow> (Some e, st')
      | (None, st') \<Rightarrow> for_of body xs st')"

text \<open>
  \<^verbatim>\<open>core.group(name, fn)\<close> calls the asynchronous callback at once; the callback of
  each block below has no \<^verbatim>\<open>await\<close>, so its body runs to its end before \<^verbatim>\<open>core.group\<close>
  returns.  An error thrown in the callback rejects the promise \<^verbatim>\<open>core.group\<close> returns,
  and each block drops that promise: the error does not reach the \<^verbatim>\<open>catch\<close> of \<^verbatim>\<open>run\<close>.
  It is kept in \<open>unhandled\<close>, and the block returns to \<^verbatim>\<open>run\<close>, which goes on to its
  next statement.  The group markers are not modelled.
\<close>

definition core_group :: "stmt \<Rightarrow> action_state \<Rightarrow> action_state" where
  "core_group fn st =
     (case fn st of
        (None, st') \<Rightarrow> st'
      | (Some e, st') \<Rightarrow> st'\<lparr>unhandled := unhandled st' @ [e]\<rparr>)"

text \<open>
  \<^verbatim>\<open>run()\<close> is the top-level call of the script.  A rejected promise that nothing
  handles ends the node process with exit code 1 once \<^verbatim>\<open>run\<close> waits at an \<^verbatim>\<open>await\<close> for
  a collaborator: the statements after that \<^verbatim>\<open>await\<close>, the \<^verbatim>\<open>catch\<close> block and the
  \<^verbatim>\<open>finally\<close> block are not executed.  So the \<^verbatim>\<open>try\<close> block of \<^verbatim>\<open>run\<close> ends in one of
  three ways: it returns, it throws, or the process ends while it waits.
\<close>

datatype completion = Returned | Thrown error | ProcessEnded

section \<open>Collaborators imported by main.ts\<close>

text \<open>
  Modelled from the spec: the order of the severities is declared in the schemas module,
  which is missing.  Section 3: low, moderate, high, critical, in increasing order.
\<close>

definition severity_rank :: "severity \<Rightarrow> nat" where
  "severity_rank s = (case s of Low \<Rightarrow> 0 | Moderate \<Rightarrow> 1 | High \<Rightarrow> 2 | Critical \<Rightarrow> 3)"

text \<open>
  Modelled from the spec: \<^verbatim>\<open>filterChangesByScopes\<close> of the filter module is missing.
  Section 4.1: retains a change iff its scope is in the allowed set; an empty set
  allows every scope.
\<close>

definition filterChangesByScopes :: "scope list \<Rightarrow> change list \<Rightarrow> change list" where
  "filterChangesByScopes allowedScopes changes =
     (if allowedScopes = [] then changes
      else filter (\<lambda>c. scope c \<in> set allowedScopes) changes)"

text \<open>
  Modelled from the spec: \<^verbatim>\<open>filterAllowedAdvisories\<close> of the filter module is missing.
  Section 4.2: removes from each change the vulnerabilities whose advisory identifier
  is allowed; the change itself is retained, also with no vulnerability left.
\<close>

definition filterAllowedAdvisories :: "string list \<Rightarrow> change list \<Rightarrow> change list" where
  "filterAllowedAdvisories allowedIds changes =
     map (\<lambda>c. case vulnerabilities c of
                 None \<Rightarrow> c
               | Some vs \<Rightarrow>
                   c\<lparr>vulnerabilities :=
                       Some (filter (\<lambda>v. advisory_id v \<notin> set allowedIds) vs)\<rparr>)
         changes"

text \<open>
  Modelled from the spec: \<^verbatim>\<open>filterChangesBySeverity\<close> of the filter module is missing.
  Section 4.3: retains a change iff at least one of its vulnerabilities has a severity
  at or above the minimum; a change with no vulnerability is excluded.
\<close>

definition hasSeverityAtLeast :: "severity \<Rightarrow> change \<Rightarrow> bool" where
  "hasSeverityAtLeast minSeverity c =
     (case vulnerabilities c of
        None \<Rightarrow> False
      | Some vs \<Rightarrow> list_ex (\<lambda>v. severity_rank minSeverity \<le> severity_rank (severity v)) vs)"

text \<open>
  Modelled from the spec: the severity filter of Section 4.3 as a filter of the sequence,
  which keeps the order of the changes it retains.
\<close>

definition filterChangesBySeverity :: "severity \<Rightarrow> change list \<Rightarrow> change list" where
  "filterChangesBySeverity minSeverity changes =
     filter (hasSeverityAtLeast minSeverity) changes"

text \<open>
  Modelled from the spec: \<^verbatim>\<open>getInvalidLicenseChanges\<close> of the licenses module is missing.
  Section 4.5: a change without a license is unlicensed; a license that is not a valid
  single SPDX identifier is unresolved, before any matching; otherwise a non-empty deny
  list forbids the licenses it holds, else a non-empty allow list forbids the licenses
  it does not hold, else nothing is forbidden.  The specification leaves the syntax of
  SPDX identifiers to a parser: \<open>validSpdx\<close> is that check.
\<close>

datatype license_class = Compliant | Forbidden | Unresolved | Unlicensed

definition classifyLicense ::
  "(string \<Rightarrow> bool) \<Rightarrow> string list \<Rightarrow> string list \<Rightarrow> change \<Rightarrow> license_class" where
  "classifyLicense validSpdx allow deny c =
     (case license c of
        None \<Rightarrow> Unlicensed
      | Some l \<Rightarrow>
          if \<not> validSpdx l then Unresolved
          else if deny \<noteq> [] then (if l \<in> set deny then Forbidden else Compliant)
          else if allow \<noteq> [] then (if l \<in> set allow then Compliant else Forbidden)
          else Compliant)"

text \<open>
  Modelled from the spec: the three buckets of Section 4.5, each in the order of the
  input; a compliant change is in none.
\<close>

definition getInvalidLicenseChanges ::
  "(string \<Rightarrow> bool) \<Rightarrow> change list \<Rightarrow> string list \<Rightarrow> string list \<Rightarrow> invalid_license_changes" where
  "getInvalidLicenseChanges validSpdx changes allow deny =
     \<lparr>forbidden = filter (\<lambda>c. classifyLicense validSpdx allow deny c = Forbidden) changes,
      unresolved = filter (\<lambda>c. classifyLicense validSpdx allow deny c = Unresolved) changes,
      unlicensed = filter (\<lambda>c. classifyLicense validSpdx allow deny c = Unlicensed) changes\<rparr>"

text \<open>
  Modelled from the spec: \<^verbatim>\<open>groupDependenciesByManifest\<close> of the utils module is missing;
  the specification names it as the grouping of the changes for display.  Each manifest,
  in the order of its first change, is bound to its changes in their order, as a
  \<^verbatim>\<open>Map\<close> filled in one pass holds them.
\<close>

fun addToGroup :: "change \<Rightarrow> (string \<times> change list) list \<Rightarrow> (string \<times> change list) list" where
  "addToGroup c [] = [(manifest c, [c])]"
| "addToGroup c ((m, cs) # rest) =
     (if m = manifest c then (m, cs @ [c]) # rest else (m, cs) # addToGroup c rest)"

text \<open>
  Modelled from the spec: the grouping, one change after the other from no group.
\<close>

definition groupDependenciesByManifest :: "change list \<Rightarrow> (string \<times> change list) list" where
  "groupDependenciesByManifest changes = foldl (\<lambda>groups c. addToGroup c groups) [] changes"

section \<open>The functions of main.ts\<close>

text \<open>
  Two statements in sequence, the second skipped when the first throws, and a statement
  that does not throw.
\<close>

definition seq :: "stmt \<Rightarrow> stmt \<Rightarrow> stmt" where
  "seq a b st =
     (case a st of
        (Some e, st') \<Rightarrow> (Some e, st')
      | (None, st') \<Rightarrow> b st')"

definition ok :: "(action_state \<Rightarrow> action_state) \<Rightarrow> stmt" where
  "ok f st = (None, f st)"

definition renderSeverity :: "severity \<Rightarrow> string \<times> severity" where
  "renderSeverity sev =
     (let color = (case sev of
                     Critical \<Rightarrow> ''red''
                   | High \<Rightarrow> ''red''
                   | Moderate \<Rightarrow> ''yellow''
                   | Low \<Rightarrow> ''grey'')
      in (color, sev))"

text \<open>
  Iterating over \<^verbatim>\<open>change.vulnerabilities\<close> throws a \<^verbatim>\<open>TypeError\<close> when it is
  \<^verbatim>\<open>undefined\<close>.
\<close>

definition printChangeVulnerabilities :: "change \<Rightarrow> stmt" where
  "printChangeVulnerabilities change st =
     (case vulnerabilities change of
        None \<Rightarrow> (Some (Error ''change.vulnerabilities is not iterable''), st)
      | Some vulns \<Rightarrow>
          (None,
           foldl (\<lambda>st vuln.
                    info (AdvisoryUrlLine (advisory_url vuln))
                      (info (VulnerabilityLine (manifest change) (name change) (version change)
                               (advisory_summary vuln) (renderSeverity (severity vuln))) st))
                 st vulns))"

definition printVulnerabilitiesBlock :: "change list \<Rightarrow> severity \<Rightarrow> bool \<Rightarrow> action_state \<Rightarrow> action_state" where
  "printVulnerabilitiesBlock addedChanges minSeverity failOnVulnerability =
     core_group (\<lambda>st.
       case (if length addedChanges > 0
             then for_of printChangeVulnerabilities addedChanges st
             else (None, st)) of
         (Some e, st') \<Rightarrow> (Some e, st')
       | (None, st') \<Rightarrow>
           (let vulFound = (length addedChanges > 0) in
            if vulFound then
              (let msg = VulnerablePackagesDetected in
               if failOnVulnerability then (None, setFailed msg st')
               else (None, warning msg st'))
            else (None, info (NoVulnerablePackages minSeverity) st')))"

definition printLicensesError :: "change list \<Rightarrow> action_state \<Rightarrow> action_state" where
  "printLicensesError changes st =
     foldl (\<lambda>st change.
              info (LicenseLine (manifest change) (name change) (version change) (license change)) st)
           st changes"

definition printNullLicenses :: "change list \<Rightarrow> action_state \<Rightarrow> action_state" where
  "printNullLicenses changes st =
     (if length changes = 0 then st
      else foldl (\<lambda>st change.
                    info (NoLicenseLine (manifest change) (name change) (version change)) st)
                 (info NoLicenseHeader st) changes)"

definition printLicensesBlock :: "invalid_license_changes \<Rightarrow> bool \<Rightarrow> action_state \<Rightarrow> action_state" where
  "printLicensesBlock invalidLicenseChanges failOnVulnerability =
     core_group (ok (\<lambda>st.
       let st1 =
             (if length (forbidden invalidLicenseChanges) > 0 then
                (let st' = printLicensesError (forbidden invalidLicenseChanges)
                             (info IncompatibleLicensesHeader st);
                     msg = IncompatibleLicensesDetected
                 in if failOnVulnerability then setFailed msg st' else warning msg st')
              else st);
           st2 =
             (if length (unresolved invalidLicenseChanges) > 0 then
                setFailed LicenseValidityUndetermined
                  (printLicensesError (unresolved invalidLicenseChanges)
                     (warning LicenseValidityHeader st1))
              else st1)
       in printNullLicenses (unlicensed invalidLicenseChanges) st2))"

definition renderScannedDependency :: "change \<Rightarrow> error + string \<times> string \<times> string \<times> string" where
  "renderScannedDependency change =
     (let changeType = change_type change in
      if changeType \<noteq> ''added'' \<and> changeType \<noteq> ''removed''
      then Inl (Error (''Unexpected change type: '' @ changeType))
      else
        (let color = (if changeType = ''added'' then ''green'' else ''red'');
             icon = (if changeType = ''added'' then ''+'' else ''-'')
         in Inr (color, icon, name change, version change)))"

definition printScannedDependencies :: "change list \<Rightarrow> action_state \<Rightarrow> action_state" where
  "printScannedDependencies changes =
     core_group (\<lambda>st.
       let dependencies = groupDependenciesByManifest changes in
       for_of (\<lambda>(manifestName, manifestChanges).
                 seq (ok (info (FileLine manifestName)))
                     (for_of (\<lambda>change st.
                                case renderScannedDependency change of
                                  Inl e \<Rightarrow> (Some e, st)
                                | Inr line \<Rightarrow> (None, info (DependencyLine line) st))
                             manifestChanges))
              dependencies st)"

subsection \<open>run\<close>

text \<open>
  What the collaborators of one run give: the value each awaited call returns or the
  error it throws (\<open>Inl\<close>), the repository of \<^verbatim>\<open>github.context\<close>, and the SPDX check of
  the license module.  \<^verbatim>\<open>dependencyGraph.compare\<close> returns a change sequence or no value
  (\<open>None\<close>).  The filters, the license classification and the summary module do not
  throw.
\<close>

record env =
  readConfig_result :: "error + config"
  getRefs_result :: "error + string \<times> string"
  repo_owner :: string
  repo_name :: string
  compare_result :: "error + change list option"
  validSpdx :: "string \<Rightarrow> bool"
  commentPr_result :: "error option"

text \<open>
  The values \<^verbatim>\<open>run\<close> binds before it reports, each under the name of its constant:
  lines 37 to 66 of \<^verbatim>\<open>main.ts\<close>.
\<close>

definition failOnVulnerability :: "config \<Rightarrow> bool" where
  "failOnVulnerability config = (fail_on_severity config \<noteq> FailNone)"

definition minSeverity :: "config \<Rightarrow> severity" where
  "minSeverity config =
     (let failOnSeverityParams = fail_on_severity config in
      case failOnSeverityParams of FailNone \<Rightarrow> Low | FailOn s \<Rightarrow> s)"

definition filteredChanges :: "config \<Rightarrow> change list \<Rightarrow> change list" where
  "filteredChanges config changes =
     (let scopedChanges = filterChangesByScopes (fail_on_scopes config) changes
      in filterAllowedAdvisories (allow_ghsas config) scopedChanges)"

definition vulnerableChanges :: "config \<Rightarrow> change list \<Rightarrow> change list" where
  "vulnerableChanges config changes =
     filter (\<lambda>change. change_type change = ''added'' \<and>
                      (case vulnerabilities change of
                         None \<Rightarrow> False
                       | Some vulns \<Rightarrow> length vulns > 0))
       (filterChangesBySeverity (minSeverity config) (filteredChanges config changes))"

definition invalidLicenseChanges :: "(string \<Rightarrow> bool) \<Rightarrow> config \<Rightarrow> change list \<Rightarrow> invalid_license_changes" where
  "invalidLicenseChanges valid config changes =
     getInvalidLicenseChanges valid (filteredChanges config changes)
       (allow_licenses config) (deny_licenses config)"

text \<open>
  The statements of the \<^verbatim>\<open>try\<close> block after the test of \<^verbatim>\<open>changes\<close>.  The blocks come
  after the \<^verbatim>\<open>await\<close> of lines 22, 25 and 60, so the first \<^verbatim>\<open>await\<close> that can find a
  rejection is the one of \<^verbatim>\<open>commentPr\<close>: \<^verbatim>\<open>commentPr\<close> is called, and the process ends
  before it answers.
\<close>

definition evaluate ::
  "env \<Rightarrow> config \<Rightarrow> change list \<Rightarrow> action_state \<Rightarrow> completion \<times> action_state" where
  "evaluate env config changes st =
     (let vulnerable = vulnerableChanges config changes;
          invalid = invalidLicenseChanges (validSpdx env) config changes;
          st1 = emit (AddSummaryToSummary vulnerable invalid config) st;
          st2 = (if vulnerability_check config then
                   printVulnerabilitiesBlock vulnerable (minSeverity config)
                     (failOnVulnerability config)
                     (emit (AddChangeVulnerabilitiesToSummary vulnerable (minSeverity config)) st1)
                 else st1);
          st3 = (if license_check config then
                   printLicensesBlock invalid (failOnVulnerability config)
                     (emit (AddLicensesToSummary invalid config) st2)
                 else st2);
          st4 = printScannedDependencies changes (emit (AddScannedDependencies changes) st3)
      in if comment_summary_in_pr config then
           (let st5 = emit CommentPr st4 in
            if unhandled st5 \<noteq> [] then (ProcessEnded, st5)
            else (case commentPr_result env of
                    Some e \<Rightarrow> (Thrown e, st5)
                  | None \<Rightarrow> (Returned, st5)))
         else (Returned, st4))"

text \<open>
  The \<^verbatim>\<open>try\<close> block.  \<^verbatim>\<open>!changes\<close> holds when \<^verbatim>\<open>changes\<close> is no value; an array, also
  the empty one, is truthy.
\<close>

definition run_try :: "env \<Rightarrow> action_state \<Rightarrow> completion \<times> action_state" where
  "run_try env st =
     (case readConfig_result env of
        Inl e \<Rightarrow> (Thrown e, st)
      | Inr config \<Rightarrow>
          (case getRefs_result env of
             Inl e \<Rightarrow> (Thrown e, st)
           | Inr refs \<Rightarrow>
               (case compare_result env of
                  Inl e \<Rightarrow> (Thrown e, st)
                | Inr None \<Rightarrow> (Returned, info NoDependencyChangesFound st)
                | Inr (Some changes) \<Rightarrow> evaluate env config changes st)))"

definition run_catch :: "env \<Rightarrow> error \<Rightarrow> action_state \<Rightarrow> action_state" where
  "run_catch env err st =
     (case err of
        RequestError status m \<Rightarrow>
          if status = 404 then setFailed CouldNotObtainDependencyData st
          else if status = 403 then
            setFailed (NotSupportedOnRepository (repo_owner env) (repo_name env)) st
          else setFailed (ErrorMessage m) st
      | Error m \<Rightarrow> setFailed (ErrorMessage m) st
      | NonError \<Rightarrow> setFailed UnexpectedFatalError st)"

text \<open>
  The \<^verbatim>\<open>finally\<close> block, \<^verbatim>\<open>await core.summary.write()\<close>: the call waits for the file
  system before it writes, so with a rejection that nothing handles the process ends
  before the summary is written.
\<close>

definition summary_write :: "action_state \<Rightarrow> action_state" where
  "summary_write st = (if unhandled st \<noteq> [] then st else emit SummaryWrite st)"

text \<open>\<^verbatim>\<open>try\<close>, \<^verbatim>\<open>catch\<close> and \<^verbatim>\<open>finally\<close> of \<^verbatim>\<open>run\<close>, with the state the process ends in.\<close>

definition run :: "env \<Rightarrow> action_state" where
  "run env =
     (case run_try env initial_state of
        (Returned, st) \<Rightarrow> summary_write st
      | (Thrown err, st) \<Rightarrow> summary_write (run_catch env err st)
      | (ProcessEnded, st) \<Rightarrow> st)"

text \<open>
  The exit code of the process is 1: \<^verbatim>\<open>core.setFailed\<close> has set it, or a rejection that
  nothing handles has ended the process.
\<close>

definition exitFailure :: "action_state \<Rightarrow> bool" where
  "exitFailure st = (failed st \<or> unhandled st \<noteq> [])"

section \<open>Notions used in the statements\<close>

subsection \<open>Malformed changes and the short-circuit outcome\<close>

text \<open>A change whose type is neither of the two known values.\<close>

definition malformed :: "change \<Rightarrow> bool" where
  "malformed c = (change_type c \<noteq> ''added'' \<and> change_type c \<noteq> ''removed'')"

text \<open>
  The terminal outcome of a run that had nothing to evaluate: the notice is printed, the
  summary is written, nothing else is called, the run is not failed and no error is
  left.
\<close>

definition nothing_to_evaluate :: "action_state \<Rightarrow> bool" where
  "nothing_to_evaluate st =
     (st = \<lparr>failed = False, events = [Info NoDependencyChangesFound, SummaryWrite],
            unhandled = []\<rparr>)"

subsection \<open>The overall verdict in the words of the specification\<close>

text \<open>
  Section 6 of the specification: fail iff the fail-on-severity is not none and the
  vulnerable changes are not empty, or a license policy is configured (Section 3: an
  allow list or a deny list is not empty) and the forbidden or the unresolved bucket is
  not empty.
\<close>

definition licensePolicyConfigured :: "config \<Rightarrow> bool" where
  "licensePolicyConfigured config = (allow_licenses config \<noteq> [] \<or> deny_licenses config \<noteq> [])"

definition spec_overall_fail :: "(string \<Rightarrow> bool) \<Rightarrow> config \<Rightarrow> change list \<Rightarrow> bool" where
  "spec_overall_fail valid config changes =
     ((fail_on_severity config \<noteq> FailNone \<and> vulnerableChanges config changes \<noteq> []) \<or>
      (licensePolicyConfigured config \<and>
         (forbidden (invalidLicenseChanges valid config changes) \<noteq> [] \<or>
          unresolved (invalidLicenseChanges valid config changes) \<noteq> [])))"

subsection \<open>The output of each block\<close>

text \<open>The lines \<^verbatim>\<open>printChangeVulnerabilities\<close> prints for a change.\<close>

definition vulnerabilityLinesOf :: "change \<Rightarrow> vulnerability list \<Rightarrow> event list" where
  "vulnerabilityLinesOf c vulns =
     concat (map (\<lambda>v. [Info (VulnerabilityLine (manifest c) (name c) (version c)
                                (advisory_summary v) (renderSeverity (severity v))),
                        Info (AdvisoryUrlLine (advisory_url v))]) vulns)"

definition vulnerabilityLines :: "change \<Rightarrow> event list" where
  "vulnerabilityLines c =
     (case vulnerabilities c of None \<Rightarrow> [] | Some vulns \<Rightarrow> vulnerabilityLinesOf c vulns)"

text \<open>The calls of \<^verbatim>\<open>printVulnerabilitiesBlock\<close> when no change lacks its vulnerabilities.\<close>

definition vulnerabilityReport :: "change list \<Rightarrow> severity \<Rightarrow> bool \<Rightarrow> event list" where
  "vulnerabilityReport v ms fov =
     (if v = [] then [Info (NoVulnerablePackages ms)]
      else concat (map vulnerabilityLines v) @
           [if fov then SetFailed VulnerablePackagesDetected
            else Warning VulnerablePackagesDetected])"

text \<open>The calls of \<^verbatim>\<open>printLicensesError\<close>, \<^verbatim>\<open>printNullLicenses\<close> and \<^verbatim>\<open>printLicensesBlock\<close>.\<close>

definition licenseLines :: "change list \<Rightarrow> event list" where
  "licenseLines cs = map (\<lambda>c. Info (LicenseLine (manifest c) (name c) (version c) (license c))) cs"

definition noLicenseLines :: "change list \<Rightarrow> event list" where
  "noLicenseLines cs =
     (if cs = [] then []
      else Info NoLicenseHeader # map (\<lambda>c. Info (NoLicenseLine (manifest c) (name c) (version c))) cs)"

definition licenseReport :: "invalid_license_changes \<Rightarrow> bool \<Rightarrow> event list" where
  "licenseReport ilc fov =
     (if forbidden ilc = [] then []
      else Info IncompatibleLicensesHeader # licenseLines (forbidden ilc) @
           [if fov then SetFailed IncompatibleLicensesDetected
            else Warning IncompatibleLicensesDetected]) @
     (if unresolved ilc = [] then []
      else Warning LicenseValidityHeader # licenseLines (unresolved ilc) @
           [SetFailed LicenseValidityUndetermined]) @
     noLicenseLines (unlicensed ilc)"

text \<open>
  The calls of \<^verbatim>\<open>run\<close> from the overview up to the list of the scanned dependencies,
  for a change sequence.
\<close>

definition pipelineEvents :: "env \<Rightarrow> config \<Rightarrow> change list \<Rightarrow> event list" where
  "pipelineEvents env config changes =
     (let v = vulnerableChanges config changes;
          ilc = invalidLicenseChanges (validSpdx env) config changes
      in AddSummaryToSummary v ilc config #
         (if vulnerability_check config
          then AddChangeVulnerabilitiesToSummary v (minSeverity config) #
               vulnerabilityReport v (minSeverity config) (failOnVulnerability config)
          else []) @
         (if license_check config
          then AddLicensesToSummary ilc config # licenseReport ilc (failOnVulnerability config)
          else []) @
         [AddScannedDependencies changes])"

text \<open>The message the \<^verbatim>\<open>catch\<close> block of \<^verbatim>\<open>run\<close> fails the run with.\<close>

definition catchMessage :: "env \<Rightarrow> error \<Rightarrow> message" where
  "catchMessage env err =
     (case err of
        RequestError status m \<Rightarrow>
          if status = 404 then CouldNotObtainDependencyData
          else if status = 403 then NotSupportedOnRepository (repo_owner env) (repo_name env)
          else ErrorMessage m
      | Error m \<Rightarrow> ErrorMessage m
      | NonError \<Rightarrow> UnexpectedFatalError)"

text \<open>The calls of \<^verbatim>\<open>run\<close> for the comment on the pull request.\<close>

definition commentEvents :: "env \<Rightarrow> config \<Rightarrow> event list" where
  "commentEvents env config =
     (if comment_summary_in_pr config
      then CommentPr # (case commentPr_result env of
                          None \<Rightarrow> []
                        | Some e \<Rightarrow> [SetFailed (catchMessage env e)])
      else [])"

text \<open>
  The calls of \<^verbatim>\<open>run\<close> after the list of the scanned dependencies: the comment and the
  summary when no change is malformed, else at most the call of \<^verbatim>\<open>commentPr\<close>.
\<close>

definition closingEvents :: "env \<Rightarrow> config \<Rightarrow> change list \<Rightarrow> event list" where
  "closingEvents env config changes =
     (if list_ex malformed changes
      then (if comment_summary_in_pr config then [CommentPr] else [])
      else commentEvents env config @ [SummaryWrite])"

subsection \<open>Kinds of output\<close>

text \<open>
  The output of the vulnerability check, of the license check, and of the list of the
  scanned dependencies.
\<close>

fun is_vulnerability_output :: "event \<Rightarrow> bool" where
  "is_vulnerability_output (AddChangeVulnerabilitiesToSummary v ms) = True"
| "is_vulnerability_output (Info (VulnerabilityLine m n v s r)) = True"
| "is_vulnerability_output (Info (AdvisoryUrlLine u)) = True"
| "is_vulnerability_output (Info (NoVulnerablePackages ms)) = True"
| "is_vulnerability_output (Warning VulnerablePackagesDetected) = True"
| "is_vulnerability_output (SetFailed VulnerablePackagesDetected) = True"
| "is_vulnerability_output e = False"

fun is_license_output :: "event \<Rightarrow> bool" where
  "is_license_output (AddLicensesToSummary ilc c) = True"
| "is_license_output (Info IncompatibleLicensesHeader) = True"
| "is_license_output (Info (LicenseLine m n v l)) = True"
| "is_license_output (Info NoLicenseHeader) = True"
| "is_license_output (Info (NoLicenseLine m n v)) = True"
| "is_license_output (Warning IncompatibleLicensesDetected) = True"
| "is_license_output (Warning LicenseValidityHeader) = True"
| "is_license_output (SetFailed IncompatibleLicensesDetected) = True"
| "is_license_output (SetFailed LicenseValidityUndetermined) = True"
| "is_license_output e = False"

fun is_scan_line :: "event \<Rightarrow> bool" where
  "is_scan_line (Info (FileLine m)) = True"
| "is_scan_line (Info (DependencyLine l)) = True"
| "is_scan_line e = False"

fun is_info :: "event \<Rightarrow> bool" where
  "is_info (Info m) = True"
| "is_info e = False"

text \<open>
  A step that only prints lines of one kind: it leaves the verdict and the rejected
  promises as they are.
\<close>

definition quiet :: "(event \<Rightarrow> bool) \<Rightarrow> action_state \<Rightarrow> action_state \<Rightarrow> bool" where
  "quiet P st st' =
     (failed st' = failed st \<and> unhandled st' = unhandled st \<and>
      (\<exists>es. events st' = events st @ es \<and> list_all P es))"

section \<open>Example inputs\<close>

text \<open>
  An instance of the SPDX check for the examples: a license string with no space and no
  parenthesis stands for a single identifier.
\<close>

definition singleIdentifier :: "string \<Rightarrow> bool" where
  "singleIdentifier l =
     (l \<noteq> [] \<and> list_all (\<lambda>ch. ch \<noteq> CHR '' '' \<and> ch \<noteq> CHR ''('' \<and> ch \<noteq> CHR '')'') l)"

definition high_advisory :: vulnerability where
  "high_advisory =
     \<lparr>severity = High, advisory_id = ''GHSA-x'', advisory_summary = ''prototype pollution'',
      advisory_url = ''https://github.com/advisories/GHSA-x''\<rparr>"

definition vulnerable_change :: change where
  "vulnerable_change =
     \<lparr>manifest = ''package-lock.json'', name = ''lodash'', version = ''4.17.0'',
      change_type = ''added'', scope = Runtime, license = Some ''MIT'',
      vulnerabilities = Some [high_advisory]\<rparr>"

definition gpl_change :: change where
  "gpl_change =
     \<lparr>manifest = ''package-lock.json'', name = ''readline'', version = ''1.3.0'',
      change_type = ''added'', scope = Runtime, license = Some ''GPL-3.0'',
      vulnerabilities = Some []\<rparr>"

definition unparsed_change :: change where
  "unparsed_change =
     \<lparr>manifest = ''Gemfile.lock'', name = ''rake'', version = ''13.0.0'',
      change_type = ''added'', scope = Runtime, license = Some ''(MIT OR'',
      vulnerabilities = Some []\<rparr>"

definition removed_change :: change where
  "removed_change = vulnerable_change\<lparr>change_type := ''removed''\<rparr>"

definition modified_change :: change where
  "modified_change = gpl_change\<lparr>change_type := ''modified''\<rparr>"

definition policy :: config where
  "policy =
     \<lparr>fail_on_severity = FailOn Moderate, fail_on_scopes = [Runtime], allow_ghsas = [],
      allow_licenses = [], deny_licenses = [''GPL-3.0''], vulnerability_check = True,
      license_check = True, comment_summary_in_pr = False\<rparr>"

text \<open>A run in which no collaborator throws.\<close>

definition world :: "config \<Rightarrow> change list option \<Rightarrow> env" where
  "world config changes =
     \<lparr>readConfig_result = Inr config, getRefs_result = Inr (''main'', ''feature''),
      repo_owner = ''octo'', repo_name = ''app'', compare_result = Inr changes,
      validSpdx = singleIdentifier, commentPr_result = None\<rparr>"

definition unlicensed_change :: change where
  "unlicensed_change =
     \<lparr>manifest = ''Gemfile.lock'', name = ''thor'', version = ''1.2.1'',
      change_type = ''added'', scope = Runtime, license = None,
      vulnerabilities = Some []\<rparr>"

text \<open>A run in which the comparison is answered with status 404.\<close>

definition unreachable_world :: env where
  "unreachable_world = (world policy None)\<lparr>compare_result := Inl (RequestError 404 ''Not Found'')\<rparr>"

section \<open>State after each function\<close>

lemma emit_simps [simp]:
  "failed (emit e st) = failed st"
  "events (emit e st) = events st @ [e]"
  "unhandled (emit e st) = unhandled st"
  by (simp_all add: emit_def)

lemma info_simps [simp]:
  "failed (info m st) = failed st"
  "events (info m st) = events st @ [Info m]"
  "unhandled (info m st) = unhandled st"
  by (simp_all add: info_def)

lemma warning_simps [simp]:
  "failed (warning m st) = failed st"
  "events (warning m st) = events st @ [Warning m]"
  "unhandled (warning m st) = unhandled st"
  by (simp_all add: warning_def)

lemma setFailed_simps [simp]:
  "failed (setFailed m st) = True"
  "events (setFailed m st) = events st @ [SetFailed m]"
  "unhandled (setFailed m st) = unhandled st"
  by (simp_all add: setFailed_def)

lemma foldl_state:
  assumes "\<And>st x. failed (f st x) = failed st"
    and "\<And>st x. unhandled (f st x) = unhandled st"
    and "\<And>st x. events (f st x) = events st @ g x"
  shows "failed (foldl f st xs) = failed st \<and> unhandled (foldl f st xs) = unhandled st \<and>
         events (foldl f st xs) = events st @ concat (map g xs)"
  by (induction xs arbitrary: st) (simp_all add: assms)

lemma printChangeVulnerabilities_Some:
  assumes "vulnerabilities c = Some vulns"
  shows "\<exists>st'. printChangeVulnerabilities c st = (None, st') \<and> failed st' = failed st \<and>
           unhandled st' = unhandled st \<and> events st' = events st @ vulnerabilityLinesOf c vulns"
  unfolding printChangeVulnerabilities_def vulnerabilityLinesOf_def using assms
  by (simp add: foldl_state [where g = "\<lambda>v. [Info (VulnerabilityLine (manifest c) (name c) (version c)
                                (advisory_summary v) (renderSeverity (severity v))),
                        Info (AdvisoryUrlLine (advisory_url v))]"])

lemma for_of_ok:
  assumes "\<And>x st. x \<in> set xs \<Longrightarrow> \<exists>st'. body x st = (None, st') \<and> failed st' = failed st \<and>
             unhandled st' = unhandled st \<and> events st' = events st @ g x"
  shows "\<exists>st'. for_of body xs st = (None, st') \<and> failed st' = failed st \<and>
           unhandled st' = unhandled st \<and> events st' = events st @ concat (map g xs)"
  using assms
proof (induction xs arbitrary: st)
  case Nil
  then show ?case by simp
next
  case (Cons x xs)
  from Cons.prems [of x st] obtain st1 where b: "body x st = (None, st1)"
    and s: "failed st1 = failed st" "unhandled st1 = unhandled st" "events st1 = events st @ g x"
    by auto
  from Cons.IH [of st1] Cons.prems obtain st2 where "for_of body xs st1 = (None, st2)"
    "failed st2 = failed st1" "unhandled st2 = unhandled st1"
    "events st2 = events st1 @ concat (map g xs)"
    by auto
  with b s show ?case by simp
qed

lemma printVulnerabilitiesBlock_state:
  assumes "\<forall>c\<in>set v. vulnerabilities c \<noteq> None"
  shows "failed (printVulnerabilitiesBlock v ms fov st) = (failed st \<or> (v \<noteq> [] \<and> fov))"
    and "unhandled (printVulnerabilitiesBlock v ms fov st) = unhandled st"
    and "events (printVulnerabilitiesBlock v ms fov st) = events st @ vulnerabilityReport v ms fov"
proof -
  have "\<And>x st. x \<in> set v \<Longrightarrow> \<exists>st'. printChangeVulnerabilities x st = (None, st') \<and>
          failed st' = failed st \<and> unhandled st' = unhandled st \<and>
          events st' = events st @ vulnerabilityLines x"
  proof -
    fix x st assume "x \<in> set v"
    with assms obtain vulns where "vulnerabilities x = Some vulns" by auto
    from printChangeVulnerabilities_Some [OF this, of st] this
    show "\<exists>st'. printChangeVulnerabilities x st = (None, st') \<and>
          failed st' = failed st \<and> unhandled st' = unhandled st \<and>
          events st' = events st @ vulnerabilityLines x"
      by (simp add: vulnerabilityLines_def)
  qed
  from for_of_ok [of v printChangeVulnerabilities vulnerabilityLines st, OF this]
  obtain st' where l: "for_of printChangeVulnerabilities v st = (None, st')"
    "failed st' = failed st" "unhandled st' = unhandled st"
    "events st' = events st @ concat (map vulnerabilityLines v)"
    by auto
  show "failed (printVulnerabilitiesBlock v ms fov st) = (failed st \<or> (v \<noteq> [] \<and> fov))"
    using l by (simp add: printVulnerabilitiesBlock_def core_group_def)
  show "unhandled (printVulnerabilitiesBlock v ms fov st) = unhandled st"
    using l by (simp add: printVulnerabilitiesBlock_def core_group_def)
  show "events (printVulnerabilitiesBlock v ms fov st) = events st @ vulnerabilityReport v ms fov"
    using l by (simp add: printVulnerabilitiesBlock_def core_group_def vulnerabilityReport_def)
qed

lemma printLicensesError_state [simp]:
  "failed (printLicensesError cs st) = failed st"
  "unhandled (printLicensesError cs st) = unhandled st"
  "events (printLicensesError cs st) = events st @ licenseLines cs"
  unfolding printLicensesError_def licenseLines_def
  using foldl_state [of "\<lambda>st change. info (LicenseLine (manifest change) (name change) (version change) (license change)) st"
      "\<lambda>c. [Info (LicenseLine (manifest c) (name c) (version c) (license c))]" st cs]
  by simp_all

lemma printNullLicenses_state [simp]:
  "failed (printNullLicenses cs st) = failed st"
  "unhandled (printNullLicenses cs st) = unhandled st"
  "events (printNullLicenses cs st) = events st @ noLicenseLines cs"
  unfolding printNullLicenses_def noLicenseLines_def
  using foldl_state [of "\<lambda>st change. info (NoLicenseLine (manifest change) (name change) (version change)) st"
      "\<lambda>c. [Info (NoLicenseLine (manifest c) (name c) (version c))]" "info NoLicenseHeader st" cs]
  by simp_all

lemma printLicensesBlock_state:
  "failed (printLicensesBlock ilc fov st) =
     (failed st \<or> (forbidden ilc \<noteq> [] \<and> fov) \<or> unresolved ilc \<noteq> [])"
  "unhandled (printLicensesBlock ilc fov st) = unhandled st"
  "events (printLicensesBlock ilc fov st) = events st @ licenseReport ilc fov"
  by (auto simp add: printLicensesBlock_def core_group_def ok_def Let_def licenseReport_def)

lemma renderScannedDependency_Inl:
  "(\<exists>e. renderScannedDependency c = Inl e) = malformed c"
  by (auto simp add: renderScannedDependency_def malformed_def Let_def)

lemma quiet_refl: "quiet P st st"
  by (simp add: quiet_def)

lemma quiet_trans: "quiet P st st1 \<Longrightarrow> quiet P st1 st2 \<Longrightarrow> quiet P st st2"
  by (auto simp add: quiet_def)

lemma for_of_quiet:
  assumes "\<And>x st. x \<in> set xs \<Longrightarrow> quiet P st (snd (body x st)) \<and> ((fst (body x st) \<noteq> None) = bad x)"
  shows "quiet P st (snd (for_of body xs st)) \<and>
         ((fst (for_of body xs st) \<noteq> None) = (\<exists>x\<in>set xs. bad x))"
  using assms
proof (induction xs arbitrary: st)
  case Nil
  then show ?case by (simp add: quiet_refl)
next
  case (Cons x xs)
  have hx: "quiet P st (snd (body x st))" "(fst (body x st) \<noteq> None) = bad x"
    using Cons.prems [of x st] by simp_all
  show ?case
  proof (cases "body x st")
    case (Pair r st1)
    show ?thesis
    proof (cases r)
      case None
      have ih: "quiet P st1 (snd (for_of body xs st1)) \<and>
                ((fst (for_of body xs st1) \<noteq> None) = (\<exists>x\<in>set xs. bad x))"
        using Cons.IH [of st1] Cons.prems by simp
      from hx Pair None have "quiet P st st1" "\<not> bad x" by simp_all
      with ih Pair None show ?thesis
        by (auto intro: quiet_trans)
    next
      case (Some e)
      with hx Pair show ?thesis by auto
    qed
  qed
qed

lemma render_loop_step:
  "quiet is_scan_line st
     (snd (case renderScannedDependency c of
             Inl e \<Rightarrow> (Some e, st)
           | Inr line \<Rightarrow> (None, info (DependencyLine line) st))) \<and>
   ((fst (case renderScannedDependency c of
             Inl e \<Rightarrow> (Some e, st)
           | Inr line \<Rightarrow> (None, info (DependencyLine line) st)) \<noteq> None) = malformed c)"
  using renderScannedDependency_Inl [of c]
  by (cases "renderScannedDependency c") (auto simp add: quiet_def)

lemma manifest_loop_step:
  fixes cs :: "change list"
  defines "inner \<equiv> for_of (\<lambda>change st.
                                case renderScannedDependency change of
                                  Inl e \<Rightarrow> (Some e, st)
                                | Inr line \<Rightarrow> (None, info (DependencyLine line) st))"
  shows "quiet is_scan_line st (snd (seq (ok (info (FileLine m))) (inner cs) st)) \<and>
         ((fst (seq (ok (info (FileLine m))) (inner cs) st) \<noteq> None) = (\<exists>c\<in>set cs. malformed c))"
proof -
  have q: "quiet is_scan_line st (info (FileLine m) st)"
    by (simp add: quiet_def)
  have l: "quiet is_scan_line (info (FileLine m) st) (snd (inner cs (info (FileLine m) st))) \<and>
        ((fst (inner cs (info (FileLine m) st)) \<noteq> None) = (\<exists>c\<in>set cs. malformed c))"
    unfolding inner_def by (rule for_of_quiet) (rule render_loop_step)
  show ?thesis
    using q l by (auto simp add: seq_def ok_def intro: quiet_trans)
qed

lemma addToGroup_changes:
  "(\<Union>g\<in>set (addToGroup c groups). set (snd g)) = insert c (\<Union>g\<in>set groups. set (snd g))"
proof (induction groups)
  case Nil
  show ?case by simp
next
  case (Cons g groups)
  obtain m cs where g: "g = (m, cs)" by (cases g)
  show ?case
    by (cases "m = manifest c") (simp_all add: g Cons.IH)
qed

lemma foldl_addToGroup_changes:
  "(\<Union>g\<in>set (foldl (\<lambda>groups c. addToGroup c groups) groups cs). set (snd g)) =
     set cs \<union> (\<Union>g\<in>set groups. set (snd g))"
  by (induction cs arbitrary: groups) (simp_all add: addToGroup_changes)

lemma groupDependenciesByManifest_changes:
  "(\<Union>g\<in>set (groupDependenciesByManifest cs). set (snd g)) = set cs"
  by (simp add: groupDependenciesByManifest_def foldl_addToGroup_changes)

lemma printScannedDependencies_state:
  "failed (printScannedDependencies cs st) = failed st"
  "\<exists>es. events (printScannedDependencies cs st) = events st @ es \<and> list_all is_scan_line es"
  "\<exists>errs. unhandled (printScannedDependencies cs st) = unhandled st @ errs \<and>
          ((errs \<noteq> []) = (\<exists>c\<in>set cs. malformed c))"
proof -
  define body where "body = (\<lambda>(manifestName, manifestChanges).
                 seq (ok (info (FileLine manifestName)))
                     (for_of (\<lambda>change st.
                                case renderScannedDependency change of
                                  Inl e \<Rightarrow> (Some e, st)
                                | Inr line \<Rightarrow> (None, info (DependencyLine line) st))
                             manifestChanges))"
  define loop where "loop = for_of body (groupDependenciesByManifest cs) st"
  have "quiet is_scan_line st (snd (for_of body (groupDependenciesByManifest cs) st)) \<and>
        ((fst (for_of body (groupDependenciesByManifest cs) st) \<noteq> None) =
          (\<exists>g\<in>set (groupDependenciesByManifest cs). \<exists>c\<in>set (snd g). malformed c))"
  proof (rule for_of_quiet)
    fix g :: "string \<times> change list" and st0
    show "quiet is_scan_line st0 (snd (body g st0)) \<and>
          ((fst (body g st0) \<noteq> None) = (\<exists>c\<in>set (snd g). malformed c))"
      using manifest_loop_step [of st0 "fst g" "snd g"]
      by (simp add: body_def split_beta)
  qed
  moreover have "(\<exists>g\<in>set (groupDependenciesByManifest cs). \<exists>c\<in>set (snd g). malformed c) =
                 (\<exists>c\<in>set cs. malformed c)"
    using groupDependenciesByManifest_changes [of cs] by blast
  ultimately have q: "quiet is_scan_line st (snd loop)"
    and t: "(fst loop \<noteq> None) = (\<exists>c\<in>set cs. malformed c)"
    by (simp_all add: loop_def)
  have p: "printScannedDependencies cs st =
        (case loop of (None, st') \<Rightarrow> st' | (Some e, st') \<Rightarrow> st'\<lparr>unhandled := unhandled st' @ [e]\<rparr>)"
    by (simp add: printScannedDependencies_def core_group_def loop_def body_def)
  show "failed (printScannedDependencies cs st) = failed st"
    using q by (cases loop) (auto simp add: p quiet_def split: option.splits)
  show "\<exists>es. events (printScannedDependencies cs st) = events st @ es \<and> list_all is_scan_line es"
    using q by (cases loop) (auto simp add: p quiet_def split: option.splits)
  show "\<exists>errs. unhandled (printScannedDependencies cs st) = unhandled st @ errs \<and>
          ((errs \<noteq> []) = (\<exists>c\<in>set cs. malformed c))"
    using q t by (cases loop) (auto simp add: p quiet_def split: option.splits)
qed

lemma vulnerabilityLines_info: "list_all is_info (vulnerabilityLines c)"
  by (auto simp add: vulnerabilityLines_def vulnerabilityLinesOf_def list_all_iff split: option.splits)

lemma vulnerabilityLines_output: "list_all is_vulnerability_output (vulnerabilityLines c)"
  by (auto simp add: vulnerabilityLines_def vulnerabilityLinesOf_def list_all_iff split: option.splits)

lemma vulnerabilityReport_output: "list_all is_vulnerability_output (vulnerabilityReport v ms fov)"
  using vulnerabilityLines_output
  by (simp add: vulnerabilityReport_def list_all_iff)

lemma licenseReport_output: "list_all is_license_output (licenseReport ilc fov)"
  by (auto simp add: licenseReport_def licenseLines_def noLicenseLines_def list_all_iff)

lemma vulnerabilityReport_SetFailed:
  "(SetFailed m \<in> set (vulnerabilityReport v ms fov)) =
     (v \<noteq> [] \<and> fov \<and> m = VulnerablePackagesDetected)"
proof -
  have "\<And>c. SetFailed m \<notin> set (vulnerabilityLines c)"
    using vulnerabilityLines_info by (fastforce simp add: list_all_iff)
  then show ?thesis
    by (auto simp add: vulnerabilityReport_def)
qed

lemma vulnerabilityReport_Warning:
  "(Warning m \<in> set (vulnerabilityReport v ms fov)) =
     (v \<noteq> [] \<and> \<not> fov \<and> m = VulnerablePackagesDetected)"
proof -
  have "\<And>c. Warning m \<notin> set (vulnerabilityLines c)"
    using vulnerabilityLines_info by (fastforce simp add: list_all_iff)
  then show ?thesis
    by (auto simp add: vulnerabilityReport_def)
qed

lemma licenseReport_SetFailed:
  "(SetFailed m \<in> set (licenseReport ilc fov)) =
     ((forbidden ilc \<noteq> [] \<and> fov \<and> m = IncompatibleLicensesDetected) \<or>
      (unresolved ilc \<noteq> [] \<and> m = LicenseValidityUndetermined))"
  by (auto simp add: licenseReport_def licenseLines_def noLicenseLines_def)

lemma licenseReport_Warning:
  "(Warning m \<in> set (licenseReport ilc fov)) =
     ((forbidden ilc \<noteq> [] \<and> \<not> fov \<and> m = IncompatibleLicensesDetected) \<or>
      (unresolved ilc \<noteq> [] \<and> m = LicenseValidityHeader))"
  by (auto simp add: licenseReport_def licenseLines_def noLicenseLines_def)

lemma vulnerableChanges_defined:
  "\<forall>c\<in>set (vulnerableChanges config changes). vulnerabilities c \<noteq> None"
  by (auto simp add: vulnerableChanges_def split: option.splits)

lemma evaluate_state:
  fixes env config changes st
  defines "r \<equiv> evaluate env config changes st"
  shows "fst r =
           (if comment_summary_in_pr config
            then (if unhandled (snd r) \<noteq> [] then ProcessEnded
                  else (case commentPr_result env of Some e \<Rightarrow> Thrown e | None \<Rightarrow> Returned))
            else Returned)"
    and "failed (snd r) =
           (failed st \<or>
            (vulnerability_check config \<and> vulnerableChanges config changes \<noteq> [] \<and>
               failOnVulnerability config) \<or>
            (license_check config \<and>
               ((forbidden (invalidLicenseChanges (validSpdx env) config changes) \<noteq> [] \<and>
                   failOnVulnerability config) \<or>
                unresolved (invalidLicenseChanges (validSpdx env) config changes) \<noteq> [])))"
    and "\<exists>scan. list_all is_scan_line scan \<and>
           events (snd r) = events st @ pipelineEvents env config changes @ scan @
             (if comment_summary_in_pr config then [CommentPr] else [])"
    and "\<exists>errs. unhandled (snd r) = unhandled st @ errs \<and>
           ((errs \<noteq> []) = (\<exists>c\<in>set changes. malformed c))"
proof -
  define v where "v = vulnerableChanges config changes"
  define ilc where "ilc = invalidLicenseChanges (validSpdx env) config changes"
  define st1 where "st1 = emit (AddSummaryToSummary v ilc config) st"
  define st2 where "st2 = (if vulnerability_check config then
                   printVulnerabilitiesBlock v (minSeverity config)
                     (failOnVulnerability config)
                     (emit (AddChangeVulnerabilitiesToSummary v (minSeverity config)) st1)
                 else st1)"
  define st3 where "st3 = (if license_check config then
                   printLicensesBlock ilc (failOnVulnerability config)
                     (emit (AddLicensesToSummary ilc config) st2)
                 else st2)"
  define st4 where "st4 = printScannedDependencies changes (emit (AddScannedDependencies changes) st3)"
  have r: "r = (if comment_summary_in_pr config then
           (if unhandled (emit CommentPr st4) \<noteq> [] then (ProcessEnded, emit CommentPr st4)
            else (case commentPr_result env of
                    Some e \<Rightarrow> (Thrown e, emit CommentPr st4)
                  | None \<Rightarrow> (Returned, emit CommentPr st4)))
         else (Returned, st4))"
    unfolding r_def evaluate_def Let_def v_def ilc_def st1_def st2_def st3_def st4_def
    by (rule refl)
  have vd: "\<forall>c\<in>set v. vulnerabilities c \<noteq> None"
    by (simp add: v_def vulnerableChanges_defined)
  note pv = printVulnerabilitiesBlock_state [OF vd]
  have f2: "failed st2 = (failed st \<or> (vulnerability_check config \<and> v \<noteq> [] \<and> failOnVulnerability config))"
    by (simp add: st2_def st1_def pv)
  have u2: "unhandled st2 = unhandled st"
    by (simp add: st2_def st1_def pv)
  have e2: "events st2 = events st @ AddSummaryToSummary v ilc config #
         (if vulnerability_check config
          then AddChangeVulnerabilitiesToSummary v (minSeverity config) #
               vulnerabilityReport v (minSeverity config) (failOnVulnerability config)
          else [])"
    by (simp add: st2_def st1_def pv)
  have f3: "failed st3 = (failed st2 \<or> (license_check config \<and>
               ((forbidden ilc \<noteq> [] \<and> failOnVulnerability config) \<or> unresolved ilc \<noteq> [])))"
    by (simp add: st3_def printLicensesBlock_state)
  have u3: "unhandled st3 = unhandled st"
    by (simp add: st3_def printLicensesBlock_state u2)
  have e3: "events st3 = events st2 @
         (if license_check config
          then AddLicensesToSummary ilc config # licenseReport ilc (failOnVulnerability config)
          else [])"
    by (simp add: st3_def printLicensesBlock_state)
  have f4: "failed st4 = failed st3"
    by (simp add: st4_def printScannedDependencies_state(1))
  obtain scan where scan: "list_all is_scan_line scan"
    "events st4 = events st3 @ [AddScannedDependencies changes] @ scan"
    using printScannedDependencies_state(2) [of changes "emit (AddScannedDependencies changes) st3"]
    by (auto simp add: st4_def)
  obtain errs where errs: "unhandled st4 = unhandled st @ errs"
    "(errs \<noteq> []) = (\<exists>c\<in>set changes. malformed c)"
    using printScannedDependencies_state(3) [of changes "emit (AddScannedDependencies changes) st3"]
    by (auto simp add: st4_def u3)
  show "fst r =
           (if comment_summary_in_pr config
            then (if unhandled (snd r) \<noteq> [] then ProcessEnded
                  else (case commentPr_result env of Some e \<Rightarrow> Thrown e | None \<Rightarrow> Returned))
            else Returned)"
    by (simp add: r Let_def split: option.splits)
  show "failed (snd r) =
           (failed st \<or>
            (vulnerability_check config \<and> vulnerableChanges config changes \<noteq> [] \<and>
               failOnVulnerability config) \<or>
            (license_check config \<and>
               ((forbidden (invalidLicenseChanges (validSpdx env) config changes) \<noteq> [] \<and>
                   failOnVulnerability config) \<or>
                unresolved (invalidLicenseChanges (validSpdx env) config changes) \<noteq> [])))"
    using f2 f3 f4 by (auto simp add: r v_def ilc_def split: option.splits)
  have "events (snd r) = events st @ pipelineEvents env config changes @ scan @
             (if comment_summary_in_pr config then [CommentPr] else [])"
    using e2 e3 scan(2)
    by (simp add: r pipelineEvents_def Let_def v_def ilc_def split: option.splits)
  with scan(1) show "\<exists>scan. list_all is_scan_line scan \<and>
           events (snd r) = events st @ pipelineEvents env config changes @ scan @
             (if comment_summary_in_pr config then [CommentPr] else [])"
    by blast
  have "unhandled (snd r) = unhandled st @ errs"
    using errs(1) by (simp add: r split: option.splits)
  with errs(2) show "\<exists>errs. unhandled (snd r) = unhandled st @ errs \<and>
           ((errs \<noteq> []) = (\<exists>c\<in>set changes. malformed c))"
    by blast
qed

section \<open>State after run\<close>

lemma run_catch_state [simp]:
  "failed (run_catch env e st) = True"
  "unhandled (run_catch env e st) = unhandled st"
  "events (run_catch env e st) = events st @ [SetFailed (catchMessage env e)]"
  by (simp_all add: run_catch_def catchMessage_def split: error.splits)

lemma catchMessage_kind [simp]:
  "catchMessage env e \<noteq> VulnerablePackagesDetected"
  "catchMessage env e \<noteq> IncompatibleLicensesDetected"
  "catchMessage env e \<noteq> LicenseValidityUndetermined"
  "VulnerablePackagesDetected \<noteq> catchMessage env e"
  "IncompatibleLicensesDetected \<noteq> catchMessage env e"
  "LicenseValidityUndetermined \<noteq> catchMessage env e"
  "\<not> is_vulnerability_output (SetFailed (catchMessage env e))"
  "\<not> is_license_output (SetFailed (catchMessage env e))"
  by (simp_all add: catchMessage_def split: error.splits)

lemma run_absent:
  assumes "readConfig_result env = Inr config" and "getRefs_result env = Inr refs"
    and "compare_result env = Inr None"
  shows "run env = \<lparr>failed = False, events = [Info NoDependencyChangesFound, SummaryWrite],
                    unhandled = []\<rparr>"
  using assms
  by (simp add: run_def run_try_def summary_write_def initial_state_def info_def emit_def)

lemma run_normal:
  assumes "readConfig_result env = Inr config" and "getRefs_result env = Inr refs"
    and "compare_result env = Inr (Some changes)"
  shows "failed (run env) =
           ((vulnerability_check config \<and> vulnerableChanges config changes \<noteq> [] \<and>
               failOnVulnerability config) \<or>
            (license_check config \<and>
               ((forbidden (invalidLicenseChanges (validSpdx env) config changes) \<noteq> [] \<and>
                   failOnVulnerability config) \<or>
                unresolved (invalidLicenseChanges (validSpdx env) config changes) \<noteq> [])) \<or>
            (comment_summary_in_pr config \<and> commentPr_result env \<noteq> None \<and>
               \<not> (\<exists>c\<in>set changes. malformed c)))"
    and "(unhandled (run env) \<noteq> []) = (\<exists>c\<in>set changes. malformed c)"
    and "\<exists>scan. list_all is_scan_line scan \<and>
           events (run env) =
             pipelineEvents env config changes @ scan @ closingEvents env config changes"
    and "(\<exists>e. fst (run_try env initial_state) = Thrown e) =
           (comment_summary_in_pr config \<and> commentPr_result env \<noteq> None \<and>
            \<not> (\<exists>c\<in>set changes. malformed c))"
    and "(fst (run_try env initial_state) = ProcessEnded) =
           (comment_summary_in_pr config \<and> (\<exists>c\<in>set changes. malformed c))"
proof -
  define r where "r = evaluate env config changes initial_state"
  have t: "run_try env initial_state = r"
    using assms by (simp add: run_try_def r_def)
  note ev = evaluate_state [of env config changes initial_state, folded r_def]
  have u: "(unhandled (snd r) \<noteq> []) = (\<exists>c\<in>set changes. malformed c)"
    using ev(4) by (auto simp add: initial_state_def)
  have c: "fst r =
           (if comment_summary_in_pr config
            then (if (\<exists>c\<in>set changes. malformed c) then ProcessEnded
                  else (case commentPr_result env of Some e \<Rightarrow> Thrown e | None \<Rightarrow> Returned))
            else Returned)"
    using ev(1) u by simp
  have run: "run env = (case fst r of
                          Returned \<Rightarrow> summary_write (snd r)
                        | Thrown err \<Rightarrow> summary_write (run_catch env err (snd r))
                        | ProcessEnded \<Rightarrow> snd r)"
    by (simp add: run_def t split_beta)
  have f: "failed (snd r) =
           ((vulnerability_check config \<and> vulnerableChanges config changes \<noteq> [] \<and>
               failOnVulnerability config) \<or>
            (license_check config \<and>
               ((forbidden (invalidLicenseChanges (validSpdx env) config changes) \<noteq> [] \<and>
                   failOnVulnerability config) \<or>
                unresolved (invalidLicenseChanges (validSpdx env) config changes) \<noteq> [])))"
    using ev(2) by (simp add: initial_state_def)
  show "(\<exists>e. fst (run_try env initial_state) = Thrown e) =
           (comment_summary_in_pr config \<and> commentPr_result env \<noteq> None \<and>
            \<not> (\<exists>c\<in>set changes. malformed c))"
    by (simp add: t c split: option.splits)
  show "(fst (run_try env initial_state) = ProcessEnded) =
           (comment_summary_in_pr config \<and> (\<exists>c\<in>set changes. malformed c))"
    by (simp add: t c split: option.splits)
  show "failed (run env) =
           ((vulnerability_check config \<and> vulnerableChanges config changes \<noteq> [] \<and>
               failOnVulnerability config) \<or>
            (license_check config \<and>
               ((forbidden (invalidLicenseChanges (validSpdx env) config changes) \<noteq> [] \<and>
                   failOnVulnerability config) \<or>
                unresolved (invalidLicenseChanges (validSpdx env) config changes) \<noteq> [])) \<or>
            (comment_summary_in_pr config \<and> commentPr_result env \<noteq> None \<and>
               \<not> (\<exists>c\<in>set changes. malformed c)))"
    using u by (auto simp add: run c f summary_write_def split: option.splits)
  show "(unhandled (run env) \<noteq> []) = (\<exists>c\<in>set changes. malformed c)"
    using u by (auto simp add: run c summary_write_def split: option.splits)
  obtain scan where scan: "list_all is_scan_line scan"
    "events (snd r) = pipelineEvents env config changes @ scan @
             (if comment_summary_in_pr config then [CommentPr] else [])"
    using ev(3) by (auto simp add: initial_state_def)
  have "events (run env) =
          pipelineEvents env config changes @ scan @ closingEvents env config changes"
    using u scan(2)
    by (auto simp add: run c summary_write_def closingEvents_def commentEvents_def list_ex_iff
          split: option.splits)
  with scan(1) show "\<exists>scan. list_all is_scan_line scan \<and>
           events (run env) =
             pipelineEvents env config changes @ scan @ closingEvents env config changes"
    by blast
qed

lemma run_thrown:
  assumes "readConfig_result env = Inl e \<or>
           (\<exists>config. readConfig_result env = Inr config \<and>
              (getRefs_result env = Inl e \<or>
               (\<exists>refs. getRefs_result env = Inr refs \<and> compare_result env = Inl e)))"
  shows "run env = \<lparr>failed = True, events = [SetFailed (catchMessage env e), SummaryWrite],
                    unhandled = []\<rparr>"
  using assms
  by (auto simp add: run_def run_try_def summary_write_def initial_state_def setFailed_def
        emit_def run_catch_def catchMessage_def split: error.splits)

section \<open>The calls of a run\<close>

lemma kinds_disjoint:
  "is_vulnerability_output e \<Longrightarrow> \<not> is_license_output e"
  "is_vulnerability_output e \<Longrightarrow> \<not> is_scan_line e"
  "is_license_output e \<Longrightarrow> \<not> is_scan_line e"
  by (cases e rule: is_vulnerability_output.cases; simp)+

lemma not_in_list_all: "list_all P xs \<Longrightarrow> \<not> P e \<Longrightarrow> e \<notin> set xs"
  by (auto simp add: list_all_iff)

lemma pipelineEvents_kinds:
  assumes "e \<in> set (pipelineEvents env config changes)"
  shows "e = AddSummaryToSummary (vulnerableChanges config changes)
               (invalidLicenseChanges (validSpdx env) config changes) config \<or>
         e = AddScannedDependencies changes \<or>
         (vulnerability_check config \<and> is_vulnerability_output e) \<or>
         (license_check config \<and> is_license_output e)"
proof -
  define v where "v = vulnerableChanges config changes"
  define ilc where "ilc = invalidLicenseChanges (validSpdx env) config changes"
  have c: "e = AddSummaryToSummary v ilc config \<or> e = AddScannedDependencies changes \<or>
        (vulnerability_check config \<and>
           (e = AddChangeVulnerabilitiesToSummary v (minSeverity config) \<or>
            e \<in> set (vulnerabilityReport v (minSeverity config) (failOnVulnerability config)))) \<or>
        (license_check config \<and>
           (e = AddLicensesToSummary ilc config \<or>
            e \<in> set (licenseReport ilc (failOnVulnerability config))))"
    using assms
    by (auto simp add: pipelineEvents_def Let_def v_def ilc_def split: if_splits)
  have "e \<in> set (vulnerabilityReport v (minSeverity config) (failOnVulnerability config)) \<Longrightarrow>
        is_vulnerability_output e"
    using vulnerabilityReport_output [of v "minSeverity config" "failOnVulnerability config"]
    by (simp add: list_all_iff)
  moreover have "e \<in> set (licenseReport ilc (failOnVulnerability config)) \<Longrightarrow>
        is_license_output e"
    using licenseReport_output [of ilc "failOnVulnerability config"]
    by (simp add: list_all_iff)
  ultimately show ?thesis
    using c unfolding v_def ilc_def by fastforce
qed

lemma pipelineEvents_overview:
  "AddSummaryToSummary (vulnerableChanges config changes)
     (invalidLicenseChanges (validSpdx env) config changes) config
     \<in> set (pipelineEvents env config changes)"
  by (simp add: pipelineEvents_def Let_def)

lemma pipelineEvents_SetFailed:
  "(SetFailed m \<in> set (pipelineEvents env config changes)) =
     ((vulnerability_check config \<and> vulnerableChanges config changes \<noteq> [] \<and>
         failOnVulnerability config \<and> m = VulnerablePackagesDetected) \<or>
      (license_check config \<and>
         ((forbidden (invalidLicenseChanges (validSpdx env) config changes) \<noteq> [] \<and>
             failOnVulnerability config \<and> m = IncompatibleLicensesDetected) \<or>
          (unresolved (invalidLicenseChanges (validSpdx env) config changes) \<noteq> [] \<and>
             m = LicenseValidityUndetermined))))"
  by (auto simp add: pipelineEvents_def Let_def vulnerabilityReport_SetFailed
        licenseReport_SetFailed)

lemma pipelineEvents_Warning:
  "(Warning m \<in> set (pipelineEvents env config changes)) =
     ((vulnerability_check config \<and> vulnerableChanges config changes \<noteq> [] \<and>
         \<not> failOnVulnerability config \<and> m = VulnerablePackagesDetected) \<or>
      (license_check config \<and>
         ((forbidden (invalidLicenseChanges (validSpdx env) config changes) \<noteq> [] \<and>
             \<not> failOnVulnerability config \<and> m = IncompatibleLicensesDetected) \<or>
          (unresolved (invalidLicenseChanges (validSpdx env) config changes) \<noteq> [] \<and>
             m = LicenseValidityHeader))))"
  by (auto simp add: pipelineEvents_def Let_def vulnerabilityReport_Warning
        licenseReport_Warning)

lemma commentEvents_kinds:
  "e \<in> set (commentEvents env config) \<Longrightarrow>
     e = CommentPr \<or> (\<exists>err. e = SetFailed (catchMessage env err))"
  by (auto simp add: commentEvents_def split: if_splits option.splits)

lemma closingEvents_kinds:
  "e \<in> set (closingEvents env config changes) \<Longrightarrow>
     e = CommentPr \<or> (\<exists>err. e = SetFailed (catchMessage env err)) \<or> e = SummaryWrite"
  using commentEvents_kinds [of e env config]
  by (auto simp add: closingEvents_def split: if_splits)

lemma run_events_SetFailed:
  assumes "readConfig_result env = Inr config" and "getRefs_result env = Inr refs"
    and "compare_result env = Inr (Some changes)"
    and "m = VulnerablePackagesDetected \<or> m = IncompatibleLicensesDetected \<or>
         m = LicenseValidityUndetermined"
  shows "(SetFailed m \<in> set (events (run env))) =
         (SetFailed m \<in> set (pipelineEvents env config changes))"
proof -
  obtain scan where scan: "list_all is_scan_line scan"
    "events (run env) =
       pipelineEvents env config changes @ scan @ closingEvents env config changes"
    using run_normal(3) [OF assms(1-3)] by blast
  have "SetFailed m \<notin> set scan"
    using scan(1) by (rule not_in_list_all) simp
  moreover have "SetFailed m \<notin> set (closingEvents env config changes)"
    using assms(4) closingEvents_kinds [of "SetFailed m" env config changes]
    by auto
  ultimately show ?thesis
    by (simp add: scan(2))
qed

lemma run_events_Warning:
  assumes "readConfig_result env = Inr config" and "getRefs_result env = Inr refs"
    and "compare_result env = Inr (Some changes)"
  shows "(Warning m \<in> set (events (run env))) =
         (Warning m \<in> set (pipelineEvents env config changes))"
proof -
  obtain scan where scan: "list_all is_scan_line scan"
    "events (run env) =
       pipelineEvents env config changes @ scan @ closingEvents env config changes"
    using run_normal(3) [OF assms(1-3)] by blast
  have "Warning m \<notin> set scan"
    using scan(1) by (rule not_in_list_all) simp
  moreover have "Warning m \<notin> set (closingEvents env config changes)"
    using closingEvents_kinds [of "Warning m" env config changes] by auto
  ultimately show ?thesis
    by (simp add: scan(2))
qed

section \<open>The filters\<close>

lemma severity_filter_nonempty:
  "c \<in> set (filterChangesBySeverity ms cs) \<Longrightarrow>
     (case vulnerabilities c of None \<Rightarrow> False | Some vulns \<Rightarrow> length vulns > 0)"
  by (auto simp add: filterChangesBySeverity_def hasSeverityAtLeast_def list_ex_iff
        split: option.splits)

lemma vulnerableChanges_added:
  "vulnerableChanges config changes =
     filter (\<lambda>c. change_type c = ''added'')
       (filterChangesBySeverity (minSeverity config) (filteredChanges config changes))"
  unfolding vulnerableChanges_def
  by (rule filter_cong [OF refl]) (simp add: severity_filter_nonempty)

lemma filterChangesByScopes_filter:
  "filterChangesByScopes scopes (filter Q cs) = filter Q (filterChangesByScopes scopes cs)"
  by (simp add: filterChangesByScopes_def conj_commute)

lemma filterAllowedAdvisories_change_type:
  "map change_type (filterAllowedAdvisories ids cs) = map change_type cs"
  by (induction cs) (simp_all add: filterAllowedAdvisories_def split: option.splits)

lemma filterAllowedAdvisories_filter:
  "filterAllowedAdvisories ids (filter (\<lambda>c. change_type c \<noteq> t) cs) =
     filter (\<lambda>c. change_type c \<noteq> t) (filterAllowedAdvisories ids cs)"
  by (induction cs) (simp_all add: filterAllowedAdvisories_def split: option.splits)

lemma filterChangesBySeverity_filter:
  "filterChangesBySeverity ms (filter Q cs) = filter Q (filterChangesBySeverity ms cs)"
  by (simp add: filterChangesBySeverity_def conj_commute)

lemma vulnerableChanges_drop_removed:
  "vulnerableChanges config (filter (\<lambda>c. change_type c \<noteq> ''removed'') changes) =
     vulnerableChanges config changes"
proof -
  have "filter (\<lambda>c. change_type c = ''added'') (filter (\<lambda>c. change_type c \<noteq> ''removed'') xs) =
        filter (\<lambda>c. change_type c = ''added'') xs" for xs :: "change list"
    by (induction xs) simp_all
  then show ?thesis
    by (simp add: vulnerableChanges_added filteredChanges_def filterChangesByScopes_filter
          filterAllowedAdvisories_filter filterChangesBySeverity_filter)
qed

section \<open>Runs of the examples and kinds of calls\<close>

lemma world_simps:
  "readConfig_result (world config cs) = Inr config"
  "getRefs_result (world config cs) = Inr (''main'', ''feature'')"
  "compare_result (world config cs) = Inr cs"
  "commentPr_result (world config cs) = None"
  "validSpdx (world config cs) = singleIdentifier"
  by (simp_all add: world_def)

lemma pipelineEvents_notice:
  "Info NoDependencyChangesFound \<notin> set (pipelineEvents env config changes)"
  using pipelineEvents_kinds [of "Info NoDependencyChangesFound" env config changes]
  by auto

lemma run_events_kinds:
  assumes "readConfig_result env = Inr config" and "getRefs_result env = Inr refs"
    and "compare_result env = Inr (Some changes)"
    and "e \<in> set (events (run env))"
  shows "e = AddSummaryToSummary (vulnerableChanges config changes)
               (invalidLicenseChanges (validSpdx env) config changes) config \<or>
         e = AddScannedDependencies changes \<or>
         (vulnerability_check config \<and> is_vulnerability_output e) \<or>
         (license_check config \<and> is_license_output e) \<or>
         is_scan_line e \<or> e = CommentPr \<or> (\<exists>err. e = SetFailed (catchMessage env err)) \<or>
         e = SummaryWrite"
proof -
  obtain scan where scan: "list_all is_scan_line scan"
    "events (run env) =
       pipelineEvents env config changes @ scan @ closingEvents env config changes"
    using run_normal(3) [OF assms(1-3)] by blast
  from assms(4) have "e \<in> set (pipelineEvents env config changes) \<or> e \<in> set scan \<or>
      e \<in> set (closingEvents env config changes)"
    by (auto simp add: scan(2))
  then show ?thesis
    using pipelineEvents_kinds [of e env config changes]
      closingEvents_kinds [of e env config changes] scan(1)
    by (auto simp add: list_all_iff)
qed

lemma run_overview_event:
  assumes "AddSummaryToSummary v ilc cfg \<in> set (events (run env))"
  shows "\<exists>config refs changes.
           readConfig_result env = Inr config \<and> getRefs_result env = Inr refs \<and>
           compare_result env = Inr (Some changes) \<and> cfg = config \<and>
           v = vulnerableChanges config changes \<and>
           ilc = invalidLicenseChanges (validSpdx env) config changes"
proof (cases "readConfig_result env")
  case (Inl e)
  with assms show ?thesis by (simp add: run_thrown [of env e])
next
  case config: (Inr config)
  show ?thesis
  proof (cases "getRefs_result env")
    case (Inl e)
    with config assms show ?thesis by (simp add: run_thrown [of env e])
  next
    case refs: (Inr refs)
    show ?thesis
    proof (cases "compare_result env")
      case (Inl e)
      with config refs assms show ?thesis by (simp add: run_thrown [of env e])
    next
      case (Inr found)
      show ?thesis
      proof (cases found)
        case None
        with config refs Inr assms show ?thesis by (simp add: run_absent [of env config refs])
      next
        case (Some changes)
        with Inr have c: "compare_result env = Inr (Some changes)" by simp
        from run_events_kinds [OF config refs c assms]
        have "cfg = config \<and> v = vulnerableChanges config changes \<and>
              ilc = invalidLicenseChanges (validSpdx env) config changes"
          by auto
        with config refs c show ?thesis by blast
      qed
    qed
  qed
qed

section \<open>The claims\<close>

text \<open>
  Unless a theorem says otherwise, the collaborators of the run return: the configuration
  is read, the refs are found and the comparison gives a change sequence.
\<close>

subsection \<open>C1: the overall verdict\<close>

text \<open>
  C1, as amended.  When no collaborator throws and every change is of type \<^verbatim>\<open>added\<close>
  or \<^verbatim>\<open>removed\<close>, the process of the run exits with a failure iff the vulnerability check
  is enabled, the fail-on-severity is not none and the vulnerable changes are not empty,
  or the license check is enabled and either the fail-on-severity is not none and the
  forbidden bucket is not empty, or the unresolved bucket is not empty; the failure is
  then the one \<^verbatim>\<open>core.setFailed\<close> marks.  In every other such case the run passes.  The
  run of a malformed change is left out: it is the subject of C3 and C10.
\<close>

theorem C1_run_failed_iff:
  assumes "readConfig_result env = Inr config" and "getRefs_result env = Inr refs"
    and "compare_result env = Inr (Some changes)"
    and "commentPr_result env = None"
    and "\<forall>c\<in>set changes. \<not> malformed c"
  shows "exitFailure (run env) =
           ((vulnerability_check config \<and> fail_on_severity config \<noteq> FailNone \<and>
               vulnerableChanges config changes \<noteq> []) \<or>
            (license_check config \<and>
               ((fail_on_severity config \<noteq> FailNone \<and>
                   forbidden (invalidLicenseChanges (validSpdx env) config changes) \<noteq> []) \<or>
                unresolved (invalidLicenseChanges (validSpdx env) config changes) \<noteq> []))) \<and>
         failed (run env) = exitFailure (run env)"
proof -
  have u: "unhandled (run env) = []"
    using run_normal(2) [OF assms(1-3)] assms(5) by simp
  then have "failed (run env) = exitFailure (run env)"
    by (simp add: exitFailure_def)
  moreover have "failed (run env) =
           ((vulnerability_check config \<and> fail_on_severity config \<noteq> FailNone \<and>
               vulnerableChanges config changes \<noteq> []) \<or>
            (license_check config \<and>
               ((fail_on_severity config \<noteq> FailNone \<and>
                   forbidden (invalidLicenseChanges (validSpdx env) config changes) \<noteq> []) \<or>
                unresolved (invalidLicenseChanges (validSpdx env) config changes) \<noteq> [])))"
    using run_normal(1) [OF assms(1-3)] assms(4)
    by (auto simp add: failOnVulnerability_def)
  ultimately show ?thesis by simp
qed

text \<open>
  The verdict at a vulnerable added change (failed) and at the same change removed
  (passed), under a policy with both checks enabled.
\<close>

theorem C1_run_failed_iff_witness:
  "exitFailure (run (world policy (Some [vulnerable_change]))) \<and>
   \<not> exitFailure (run (world policy (Some [removed_change])))"
proof -
  have c: "vulnerability_check policy" "license_check policy"
    "fail_on_severity policy \<noteq> FailNone"
    by (simp_all add: policy_def)
  have v: "vulnerableChanges policy [vulnerable_change] \<noteq> []"
    "vulnerableChanges policy [removed_change] = []"
    "forbidden (invalidLicenseChanges singleIdentifier policy [removed_change]) = []"
    "unresolved (invalidLicenseChanges singleIdentifier policy [removed_change]) = []"
    "\<not> malformed vulnerable_change" "\<not> malformed removed_change"
    by code_simp+
  show ?thesis
    using C1_run_failed_iff [of "world policy (Some [vulnerable_change])" policy
        "(''main'', ''feature'')" "[vulnerable_change]"]
      C1_run_failed_iff [of "world policy (Some [removed_change])" policy
        "(''main'', ''feature'')" "[removed_change]"]
    by (simp add: world_simps c v)
qed

text \<open>
  C1 as stated fails on four runs, none with a malformed change.  With fail-on-severity
  none, the license check enabled and a deny list that holds the license of the change,
  the forbidden bucket is not empty and the run passes: \<^verbatim>\<open>printLicensesBlock\<close> only
  warns.  With the vulnerability check disabled, a vulnerable added change does not fail
  the run: \<^verbatim>\<open>printVulnerabilitiesBlock\<close> is not called.  With a deny list configured, a
  denied license and the license check disabled, the run passes: a configured license
  policy is not enough, \<^verbatim>\<open>printLicensesBlock\<close> is not called.  With no allow list and no
  deny list, the license check enabled and a license that is not an SPDX identifier,
  the run fails: a configured license policy is not needed.
\<close>

theorem C1_spec_verdict_counterexample:
  "(spec_overall_fail singleIdentifier (policy\<lparr>fail_on_severity := FailNone\<rparr>) [gpl_change] \<and>
    \<not> exitFailure (run (world (policy\<lparr>fail_on_severity := FailNone\<rparr>) (Some [gpl_change])))) \<and>
   (spec_overall_fail singleIdentifier (policy\<lparr>vulnerability_check := False\<rparr>) [vulnerable_change] \<and>
    \<not> exitFailure (run (world (policy\<lparr>vulnerability_check := False\<rparr>) (Some [vulnerable_change])))) \<and>
   (licensePolicyConfigured (policy\<lparr>license_check := False\<rparr>) \<and>
    spec_overall_fail singleIdentifier (policy\<lparr>license_check := False\<rparr>) [gpl_change] \<and>
    \<not> exitFailure (run (world (policy\<lparr>license_check := False\<rparr>) (Some [gpl_change])))) \<and>
   (\<not> licensePolicyConfigured (policy\<lparr>deny_licenses := []\<rparr>) \<and>
    \<not> spec_overall_fail singleIdentifier (policy\<lparr>deny_licenses := []\<rparr>) [unparsed_change] \<and>
    license_check (policy\<lparr>deny_licenses := []\<rparr>) \<and>
    exitFailure (run (world (policy\<lparr>deny_licenses := []\<rparr>) (Some [unparsed_change]))))"
  by code_simp

subsection \<open>C2: absent and empty change sets\<close>

text \<open>
  C2, as amended.  When the comparison gives no change set, the run ends as nothing to
  evaluate: it prints the notice, writes the summary, calls nothing else, is not failed
  and leaves no error.  When the comparison gives the empty sequence, the run does not
  short-circuit: the filters and the license classification run on the empty sequence,
  their empty results reach the summary, the notice is not printed, no error is raised
  in the blocks, and the run is failed only if posting the comment throws.
\<close>

theorem C2_absent_short_circuits:
  assumes "readConfig_result env = Inr config" and "getRefs_result env = Inr refs"
  shows "(compare_result env = Inr None \<longrightarrow> nothing_to_evaluate (run env)) \<and>
         (compare_result env = Inr (Some []) \<longrightarrow>
            \<not> nothing_to_evaluate (run env) \<and>
            AddSummaryToSummary []
              \<lparr>forbidden = [], unresolved = [], unlicensed = []\<rparr> config
              \<in> set (events (run env)) \<and>
            Info NoDependencyChangesFound \<notin> set (events (run env)) \<and>
            unhandled (run env) = [] \<and>
            failed (run env) = (comment_summary_in_pr config \<and> commentPr_result env \<noteq> None))"
proof (intro conjI impI)
  assume "compare_result env = Inr None"
  then show "nothing_to_evaluate (run env)"
    using run_absent [OF assms] by (simp add: nothing_to_evaluate_def)
next
  assume e: "compare_result env = Inr (Some [])"
  have v: "vulnerableChanges config [] = []"
    by (simp add: vulnerableChanges_def filteredChanges_def filterChangesByScopes_def
          filterAllowedAdvisories_def filterChangesBySeverity_def)
  have l: "invalidLicenseChanges (validSpdx env) config [] =
             \<lparr>forbidden = [], unresolved = [], unlicensed = []\<rparr>"
    by (simp add: invalidLicenseChanges_def filteredChanges_def filterChangesByScopes_def
          filterAllowedAdvisories_def getInvalidLicenseChanges_def)
  obtain scan where scan: "list_all is_scan_line scan"
    "events (run env) =
       pipelineEvents env config [] @ scan @ commentEvents env config @ [SummaryWrite]"
    using run_normal(3) [OF assms e] by (auto simp add: closingEvents_def)
  have n1: "Info NoDependencyChangesFound \<notin> set scan"
    using scan(1) by (rule not_in_list_all) simp
  have n2: "Info NoDependencyChangesFound \<notin> set (commentEvents env config)"
    using commentEvents_kinds [of "Info NoDependencyChangesFound" env config] by auto
  show n: "Info NoDependencyChangesFound \<notin> set (events (run env))"
    using n1 n2 pipelineEvents_notice by (simp add: scan(2))
  show "\<not> nothing_to_evaluate (run env)"
    using n by (auto simp add: nothing_to_evaluate_def)
  show "AddSummaryToSummary [] \<lparr>forbidden = [], unresolved = [], unlicensed = []\<rparr> config
          \<in> set (events (run env))"
    using pipelineEvents_overview [of config "[]" env] by (simp add: scan(2) v l)
  show "unhandled (run env) = []"
    using run_normal(2) [OF assms e] by simp
  show "failed (run env) = (comment_summary_in_pr config \<and> commentPr_result env \<noteq> None)"
    using run_normal(1) [OF assms e] by (simp add: v l)
qed

text \<open>
  The two cases under the example policy: no change set, and the empty sequence.
\<close>

theorem C2_absent_short_circuits_witness:
  "nothing_to_evaluate (run (world policy None)) \<and>
   \<not> failed (run (world policy (Some []))) \<and>
   unhandled (run (world policy (Some []))) = [] \<and>
   AddSummaryToSummary [] \<lparr>forbidden = [], unresolved = [], unlicensed = []\<rparr> policy
     \<in> set (events (run (world policy (Some []))))"
  using C2_absent_short_circuits [of "world policy None" policy "(''main'', ''feature'')"]
    C2_absent_short_circuits [of "world policy (Some [])" policy "(''main'', ''feature'')"]
  by (simp add: world_simps)

text \<open>
  C2 as stated fails at the empty sequence: \<^verbatim>\<open>!changes\<close> is false for an empty array,
  so the run is not the short-circuit outcome; the notice is not printed and the results
  of the filters and of the license classification reach the summary.
\<close>

theorem C2_empty_sequence_counterexample:
  "\<not> nothing_to_evaluate (run (world policy (Some []))) \<and>
   Info NoDependencyChangesFound \<notin> set (events (run (world policy (Some [])))) \<and>
   AddSummaryToSummary [] \<lparr>forbidden = [], unresolved = [], unlicensed = []\<rparr> policy
     \<in> set (events (run (world policy (Some []))))"
  by code_simp

subsection \<open>C3: malformed changes\<close>

text \<open>
  C3.  \<^verbatim>\<open>renderScannedDependency\<close> throws for a change whose type is neither
  \<^verbatim>\<open>added\<close> nor \<^verbatim>\<open>removed\<close> and returns a line for every other change.  In a run, an
  error is raised in a block iff some change of the sequence is malformed, and the
  process then exits with a failure; the \<^verbatim>\<open>try\<close> block itself throws only if posting
  the comment does: a malformed change is the only condition on which the functions of
  \<^verbatim>\<open>main.ts\<close> raise.
\<close>

theorem C3_malformed_change_raises:
  assumes "readConfig_result env = Inr config" and "getRefs_result env = Inr refs"
    and "compare_result env = Inr (Some changes)"
  shows "(malformed c \<longrightarrow>
            renderScannedDependency c = Inl (Error (''Unexpected change type: '' @ change_type c))) \<and>
         (\<not> malformed c \<longrightarrow> (\<exists>line. renderScannedDependency c = Inr line)) \<and>
         (unhandled (run env) \<noteq> []) = (\<exists>c\<in>set changes. malformed c) \<and>
         ((\<exists>c\<in>set changes. malformed c) \<longrightarrow> exitFailure (run env)) \<and>
         (\<exists>e. fst (run_try env initial_state) = Thrown e) =
           (comment_summary_in_pr config \<and> commentPr_result env \<noteq> None \<and>
            \<not> (\<exists>c\<in>set changes. malformed c))"
  using run_normal(2) [OF assms] run_normal(4) [OF assms]
  by (simp add: renderScannedDependency_def malformed_def Let_def exitFailure_def)

text \<open>
  A sequence with a change of type \<^verbatim>\<open>modified\<close> raises the error and the process exits
  with a failure; a sequence of an added and a removed change raises none.
\<close>

theorem C3_malformed_change_raises_witness:
  "malformed modified_change \<and>
   renderScannedDependency modified_change = Inl (Error ''Unexpected change type: modified'') \<and>
   unhandled (run (world policy (Some [vulnerable_change, modified_change]))) \<noteq> [] \<and>
   exitFailure (run (world policy (Some [vulnerable_change, modified_change]))) \<and>
   \<not> (\<exists>e. fst (run_try (world policy (Some [vulnerable_change, modified_change])) initial_state) =
          Thrown e) \<and>
   unhandled (run (world policy (Some [vulnerable_change, removed_change]))) = []"
proof -
  have m: "malformed modified_change" "\<not> malformed vulnerable_change"
    "\<not> malformed removed_change" "change_type modified_change = ''modified''"
    "\<not> comment_summary_in_pr policy"
    by code_simp+
  show ?thesis
    using C3_malformed_change_raises [of "world policy (Some [vulnerable_change, modified_change])"
        policy "(''main'', ''feature'')" "[vulnerable_change, modified_change]" modified_change]
      C3_malformed_change_raises [of "world policy (Some [vulnerable_change, removed_change])"
        policy "(''main'', ''feature'')" "[vulnerable_change, removed_change]" modified_change]
    by (simp add: world_simps m)
qed

subsection \<open>C4: order of the pipeline\<close>

text \<open>
  C4.  The vulnerable changes that \<^verbatim>\<open>run\<close> hands to the summary are the changes of type
  \<^verbatim>\<open>added\<close> among the result of the scope filter, then the allowlist filter, then the
  severity filter; the license classification it hands over is computed from the result
  of the scope filter and the allowlist filter, not from the severity filter.
\<close>

theorem C4_pipeline_order:
  assumes "readConfig_result env = Inr config" and "getRefs_result env = Inr refs"
    and "compare_result env = Inr (Some changes)"
  shows "AddSummaryToSummary
           (filter (\<lambda>c. change_type c = ''added'')
              (filterChangesBySeverity (minSeverity config)
                 (filterAllowedAdvisories (allow_ghsas config)
                    (filterChangesByScopes (fail_on_scopes config) changes))))
           (getInvalidLicenseChanges (validSpdx env)
              (filterAllowedAdvisories (allow_ghsas config)
                 (filterChangesByScopes (fail_on_scopes config) changes))
              (allow_licenses config) (deny_licenses config))
           config
         \<in> set (events (run env))"
proof -
  obtain scan where "events (run env) =
       pipelineEvents env config changes @ scan @ closingEvents env config changes"
    using run_normal(3) [OF assms] by blast
  then have "AddSummaryToSummary (vulnerableChanges config changes)
               (invalidLicenseChanges (validSpdx env) config changes) config
             \<in> set (events (run env))"
    using pipelineEvents_overview [of config changes env] by simp
  then show ?thesis
    by (simp add: vulnerableChanges_added invalidLicenseChanges_def filteredChanges_def)
qed

text \<open>
  A vulnerable added change, the same change removed and a change under a denied
  license: the first is the only vulnerable change, the last the only forbidden one.
\<close>

theorem C4_pipeline_order_witness:
  "AddSummaryToSummary [vulnerable_change]
     \<lparr>forbidden = [gpl_change], unresolved = [], unlicensed = []\<rparr> policy
   \<in> set (events (run (world policy (Some [vulnerable_change, removed_change, gpl_change]))))"
proof -
  have "filter (\<lambda>c. change_type c = ''added'')
          (filterChangesBySeverity (minSeverity policy)
             (filterAllowedAdvisories (allow_ghsas policy)
                (filterChangesByScopes (fail_on_scopes policy)
                   [vulnerable_change, removed_change, gpl_change]))) = [vulnerable_change]"
    by code_simp
  moreover have "getInvalidLicenseChanges singleIdentifier
          (filterAllowedAdvisories (allow_ghsas policy)
             (filterChangesByScopes (fail_on_scopes policy)
                [vulnerable_change, removed_change, gpl_change]))
          (allow_licenses policy) (deny_licenses policy) =
        \<lparr>forbidden = [gpl_change], unresolved = [], unlicensed = []\<rparr>"
    by code_simp
  ultimately show ?thesis
    using C4_pipeline_order [of "world policy (Some [vulnerable_change, removed_change, gpl_change])"
        policy "(''main'', ''feature'')" "[vulnerable_change, removed_change, gpl_change]"]
    by (simp add: world_simps)
qed

subsection \<open>C5: fail-on-severity none\<close>

text \<open>
  C5.  With fail-on-severity none the minimum severity is low and the severity filter
  runs with it; vulnerable changes are reported by a warning when the vulnerability
  check is enabled, and neither the mark of \<^verbatim>\<open>core.setFailed\<close> nor the exit code of the
  process depends on them.  For every configuration the run is failed for vulnerable
  packages only when the fail-on-severity is not none.
\<close>

theorem C5_fail_on_none:
  assumes "readConfig_result env = Inr config" and "getRefs_result env = Inr refs"
    and "compare_result env = Inr (Some changes)"
  shows "(fail_on_severity config = FailNone \<longrightarrow>
            minSeverity config = Low \<and>
            vulnerableChanges config changes =
              filter (\<lambda>c. change_type c = ''added'')
                (filterChangesBySeverity Low (filteredChanges config changes)) \<and>
            (Warning VulnerablePackagesDetected \<in> set (events (run env))) =
              (vulnerability_check config \<and> vulnerableChanges config changes \<noteq> []) \<and>
            failed (run env) =
              ((license_check config \<and>
                  unresolved (invalidLicenseChanges (validSpdx env) config changes) \<noteq> []) \<or>
               (comment_summary_in_pr config \<and> commentPr_result env \<noteq> None \<and>
                  \<not> (\<exists>c\<in>set changes. malformed c))) \<and>
            exitFailure (run env) =
              ((license_check config \<and>
                  unresolved (invalidLicenseChanges (validSpdx env) config changes) \<noteq> []) \<or>
               (comment_summary_in_pr config \<and> commentPr_result env \<noteq> None) \<or>
               (\<exists>c\<in>set changes. malformed c))) \<and>
         (SetFailed VulnerablePackagesDetected \<in> set (events (run env))) =
           (vulnerability_check config \<and> fail_on_severity config \<noteq> FailNone \<and>
            vulnerableChanges config changes \<noteq> [])"
proof (intro conjI impI)
  assume n: "fail_on_severity config = FailNone"
  show m: "minSeverity config = Low"
    by (simp add: minSeverity_def n)
  show "vulnerableChanges config changes =
          filter (\<lambda>c. change_type c = ''added'')
            (filterChangesBySeverity Low (filteredChanges config changes))"
    using vulnerableChanges_added [of config changes] by (simp add: m)
  show "(Warning VulnerablePackagesDetected \<in> set (events (run env))) =
          (vulnerability_check config \<and> vulnerableChanges config changes \<noteq> [])"
    by (simp add: run_events_Warning [OF assms] pipelineEvents_Warning failOnVulnerability_def n)
  show f: "failed (run env) =
          ((license_check config \<and>
              unresolved (invalidLicenseChanges (validSpdx env) config changes) \<noteq> []) \<or>
           (comment_summary_in_pr config \<and> commentPr_result env \<noteq> None \<and>
              \<not> (\<exists>c\<in>set changes. malformed c)))"
    by (simp add: run_normal(1) [OF assms] failOnVulnerability_def n)
  show "exitFailure (run env) =
          ((license_check config \<and>
              unresolved (invalidLicenseChanges (validSpdx env) config changes) \<noteq> []) \<or>
           (comment_summary_in_pr config \<and> commentPr_result env \<noteq> None) \<or>
           (\<exists>c\<in>set changes. malformed c))"
    using f run_normal(2) [OF assms] by (auto simp add: exitFailure_def)
next
  show "(SetFailed VulnerablePackagesDetected \<in> set (events (run env))) =
          (vulnerability_check config \<and> fail_on_severity config \<noteq> FailNone \<and>
           vulnerableChanges config changes \<noteq> [])"
    by (auto simp add: run_events_SetFailed [OF assms] pipelineEvents_SetFailed
          failOnVulnerability_def)
qed

text \<open>
  A vulnerable added change under fail-on-severity none: a warning, no failure.
\<close>

theorem C5_fail_on_none_witness:
  "vulnerableChanges (policy\<lparr>fail_on_severity := FailNone\<rparr>) [vulnerable_change] =
     [vulnerable_change] \<and>
   Warning VulnerablePackagesDetected
     \<in> set (events (run (world (policy\<lparr>fail_on_severity := FailNone\<rparr>) (Some [vulnerable_change])))) \<and>
   SetFailed VulnerablePackagesDetected
     \<notin> set (events (run (world (policy\<lparr>fail_on_severity := FailNone\<rparr>) (Some [vulnerable_change])))) \<and>
   \<not> failed (run (world (policy\<lparr>fail_on_severity := FailNone\<rparr>) (Some [vulnerable_change])))"
proof -
  define quiet_policy where "quiet_policy = policy\<lparr>fail_on_severity := FailNone\<rparr>"
  have c: "fail_on_severity quiet_policy = FailNone" "vulnerability_check quiet_policy"
    "license_check quiet_policy" "\<not> comment_summary_in_pr quiet_policy"
    by (simp_all add: quiet_policy_def policy_def)
  have v: "filter (\<lambda>c. change_type c = ''added'')
             (filterChangesBySeverity Low (filteredChanges (policy\<lparr>fail_on_severity := FailNone\<rparr>)
                [vulnerable_change])) = [vulnerable_change]"
    "unresolved (invalidLicenseChanges singleIdentifier (policy\<lparr>fail_on_severity := FailNone\<rparr>)
       [vulnerable_change]) = []"
    "\<not> malformed vulnerable_change"
    by code_simp+
  show ?thesis
    using C5_fail_on_none [of "world quiet_policy (Some [vulnerable_change])" quiet_policy
        "(''main'', ''feature'')" "[vulnerable_change]"] c v
    unfolding quiet_policy_def
    by (simp add: world_simps)
qed

subsection \<open>C6: removed changes\<close>

text \<open>
  C6.  A change of type \<^verbatim>\<open>removed\<close> is never among the vulnerable changes, whatever its
  vulnerabilities are; the vulnerable changes are the same when the removed changes are
  taken out of the input; and no run hands a removed change to the summary among the
  vulnerable changes.
\<close>

theorem C6_removed_never_vulnerable:
  "(change_type c = ''removed'' \<longrightarrow> c \<notin> set (vulnerableChanges config changes)) \<and>
   vulnerableChanges config (filter (\<lambda>c. change_type c \<noteq> ''removed'') changes) =
     vulnerableChanges config changes \<and>
   (change_type c = ''removed'' \<and> AddSummaryToSummary v ilc cfg \<in> set (events (run env)) \<longrightarrow>
      c \<notin> set v)"
proof (intro conjI impI)
  show "vulnerableChanges config (filter (\<lambda>c. change_type c \<noteq> ''removed'') changes) =
          vulnerableChanges config changes"
    by (rule vulnerableChanges_drop_removed)
next
  assume "change_type c = ''removed''"
  then show "c \<notin> set (vulnerableChanges config changes)"
    by (simp add: vulnerableChanges_def)
next
  assume a: "change_type c = ''removed'' \<and> AddSummaryToSummary v ilc cfg \<in> set (events (run env))"
  then obtain config' changes' where "v = vulnerableChanges config' changes'"
    using run_overview_event [of v ilc cfg env] by blast
  with a show "c \<notin> set v"
    by (simp add: vulnerableChanges_def)
qed

text \<open>
  A removed change with a high advisory next to the same change added: only the added
  one is among the vulnerable changes of the run.
\<close>

theorem C6_removed_never_vulnerable_witness:
  "change_type removed_change = ''removed'' \<and>
   removed_change \<notin> set (vulnerableChanges policy [removed_change, vulnerable_change]) \<and>
   vulnerableChanges policy [removed_change, vulnerable_change] = [vulnerable_change] \<and>
   AddSummaryToSummary [vulnerable_change]
     \<lparr>forbidden = [], unresolved = [], unlicensed = []\<rparr> policy
     \<in> set (events (run (world policy (Some [removed_change, vulnerable_change])))) \<and>
   removed_change \<notin> set [vulnerable_change]"
proof -
  have r: "change_type removed_change = ''removed''"
    "filter (\<lambda>c. change_type c \<noteq> ''removed'') [removed_change, vulnerable_change] =
       [vulnerable_change]"
    "vulnerableChanges policy [vulnerable_change] = [vulnerable_change]"
    by code_simp+
  have e: "AddSummaryToSummary [vulnerable_change]
     \<lparr>forbidden = [], unresolved = [], unlicensed = []\<rparr> policy
     \<in> set (events (run (world policy (Some [removed_change, vulnerable_change]))))"
    by code_simp
  show ?thesis
    using C6_removed_never_vulnerable [of removed_change policy
        "[removed_change, vulnerable_change]" "[vulnerable_change]"
        "\<lparr>forbidden = [], unresolved = [], unlicensed = []\<rparr>" policy
        "world policy (Some [removed_change, vulnerable_change])", unfolded r(2) r(3)] r(1) e
    by metis
qed

subsection \<open>C7: both results are computed\<close>

text \<open>
  C7.  For every configuration and change sequence, \<^verbatim>\<open>run\<close> computes the vulnerable
  changes and the license classification and hands both to the summary; a disabled
  vulnerability check leaves out the output of the vulnerability block only, a disabled
  license check the output of the license block only.
\<close>

theorem C7_both_results_computed:
  assumes "readConfig_result env = Inr config" and "getRefs_result env = Inr refs"
    and "compare_result env = Inr (Some changes)"
  shows "AddSummaryToSummary (vulnerableChanges config changes)
           (invalidLicenseChanges (validSpdx env) config changes) config
           \<in> set (events (run env)) \<and>
         (\<not> vulnerability_check config \<longrightarrow>
            \<not> list_ex is_vulnerability_output (events (run env))) \<and>
         (\<not> license_check config \<longrightarrow>
            \<not> list_ex is_license_output (events (run env)))"
proof (intro conjI impI)
  obtain scan where scan: "events (run env) =
       pipelineEvents env config changes @ scan @ closingEvents env config changes"
    using run_normal(3) [OF assms] by blast
  show "AddSummaryToSummary (vulnerableChanges config changes)
           (invalidLicenseChanges (validSpdx env) config changes) config
           \<in> set (events (run env))"
    using pipelineEvents_overview [of config changes env] by (simp add: scan)
next
  assume off: "\<not> vulnerability_check config"
  show "\<not> list_ex is_vulnerability_output (events (run env))"
  proof
    assume "list_ex is_vulnerability_output (events (run env))"
    then obtain e where e: "e \<in> set (events (run env))" "is_vulnerability_output e"
      by (auto simp add: list_ex_iff)
    from run_events_kinds [OF assms e(1)] off e(2) kinds_disjoint(1,2) [OF e(2)]
    show False by auto
  qed
next
  assume off: "\<not> license_check config"
  show "\<not> list_ex is_license_output (events (run env))"
  proof
    assume "list_ex is_license_output (events (run env))"
    then obtain e where e: "e \<in> set (events (run env))" "is_license_output e"
      by (auto simp add: list_ex_iff)
    from run_events_kinds [OF assms e(1)] off e(2) kinds_disjoint(1) [of e]
      kinds_disjoint(3) [OF e(2)]
    show False by auto
  qed
qed

text \<open>
  Both checks disabled: both results reach the summary and neither block prints.
\<close>

theorem C7_both_results_computed_witness:
  "AddSummaryToSummary [vulnerable_change]
     \<lparr>forbidden = [gpl_change], unresolved = [], unlicensed = []\<rparr>
     (policy\<lparr>vulnerability_check := False, license_check := False\<rparr>)
     \<in> set (events (run (world (policy\<lparr>vulnerability_check := False, license_check := False\<rparr>)
                           (Some [vulnerable_change, gpl_change])))) \<and>
   \<not> list_ex is_vulnerability_output
       (events (run (world (policy\<lparr>vulnerability_check := False, license_check := False\<rparr>)
                      (Some [vulnerable_change, gpl_change])))) \<and>
   \<not> list_ex is_license_output
       (events (run (world (policy\<lparr>vulnerability_check := False, license_check := False\<rparr>)
                      (Some [vulnerable_change, gpl_change]))))"
proof -
  define off where "off = policy\<lparr>vulnerability_check := False, license_check := False\<rparr>"
  have c: "\<not> vulnerability_check off" "\<not> license_check off"
    by (simp_all add: off_def)
  have v: "vulnerableChanges off [vulnerable_change, gpl_change] = [vulnerable_change]"
    "invalidLicenseChanges singleIdentifier off [vulnerable_change, gpl_change] =
       \<lparr>forbidden = [gpl_change], unresolved = [], unlicensed = []\<rparr>"
    unfolding off_def by code_simp+
  show ?thesis
    using C7_both_results_computed [of "world off (Some [vulnerable_change, gpl_change])" off
        "(''main'', ''feature'')" "[vulnerable_change, gpl_change]"] c
    unfolding off_def [symmetric]
    by (simp add: world_simps v)
qed

subsection \<open>C8: the license buckets\<close>

text \<open>
  C8.  The forbidden, unresolved and unlicensed buckets of the license classification
  are pairwise disjoint, and a compliant change is in none of them: a change of the
  input is in the bucket of its class and in no other.  The buckets that a run hands to
  the summary are pairwise disjoint.
\<close>

theorem C8_license_buckets_disjoint:
  fixes valid allow deny changes
  defines "r \<equiv> getInvalidLicenseChanges valid changes allow deny"
  shows "set (forbidden r) \<inter> set (unresolved r) = {} \<and>
         set (forbidden r) \<inter> set (unlicensed r) = {} \<and>
         set (unresolved r) \<inter> set (unlicensed r) = {} \<and>
         (classifyLicense valid allow deny c = Compliant \<longrightarrow>
            c \<notin> set (forbidden r) \<and> c \<notin> set (unresolved r) \<and> c \<notin> set (unlicensed r)) \<and>
         (c \<in> set changes \<longrightarrow>
            (c \<in> set (forbidden r)) = (classifyLicense valid allow deny c = Forbidden) \<and>
            (c \<in> set (unresolved r)) = (classifyLicense valid allow deny c = Unresolved) \<and>
            (c \<in> set (unlicensed r)) = (classifyLicense valid allow deny c = Unlicensed)) \<and>
         (AddSummaryToSummary v ilc cfg \<in> set (events (run env)) \<longrightarrow>
            set (forbidden ilc) \<inter> set (unresolved ilc) = {} \<and>
            set (forbidden ilc) \<inter> set (unlicensed ilc) = {} \<and>
            set (unresolved ilc) \<inter> set (unlicensed ilc) = {})"
proof -
  have d: "set (forbidden b) \<inter> set (unresolved b) = {} \<and>
           set (forbidden b) \<inter> set (unlicensed b) = {} \<and>
           set (unresolved b) \<inter> set (unlicensed b) = {}"
    if "b = getInvalidLicenseChanges f cs a d" for b f cs a d
    using that by (auto simp add: getInvalidLicenseChanges_def)
  have m: "(c \<in> set (forbidden r)) = (c \<in> set changes \<and> classifyLicense valid allow deny c = Forbidden)"
    "(c \<in> set (unresolved r)) = (c \<in> set changes \<and> classifyLicense valid allow deny c = Unresolved)"
    "(c \<in> set (unlicensed r)) = (c \<in> set changes \<and> classifyLicense valid allow deny c = Unlicensed)"
    by (simp_all add: r_def getInvalidLicenseChanges_def)
  have run: "set (forbidden ilc) \<inter> set (unresolved ilc) = {} \<and>
            set (forbidden ilc) \<inter> set (unlicensed ilc) = {} \<and>
            set (unresolved ilc) \<inter> set (unlicensed ilc) = {}"
    if "AddSummaryToSummary v ilc cfg \<in> set (events (run env))"
  proof -
    from run_overview_event [OF that] obtain config cs
      where "ilc = invalidLicenseChanges (validSpdx env) config cs" by blast
    then show ?thesis
      using d [of ilc "validSpdx env" "filteredChanges config cs" "allow_licenses config"
          "deny_licenses config"]
      by (simp add: invalidLicenseChanges_def)
  qed
  have "r = getInvalidLicenseChanges valid changes allow deny"
    by (simp add: r_def)
  from d [OF this] run show ?thesis
    by (simp add: m)
qed

text \<open>
  One change of each class under a deny list.
\<close>

theorem C8_license_buckets_disjoint_witness:
  "getInvalidLicenseChanges singleIdentifier
     [vulnerable_change, gpl_change, unparsed_change, unlicensed_change] [] [''GPL-3.0''] =
     \<lparr>forbidden = [gpl_change], unresolved = [unparsed_change], unlicensed = [unlicensed_change]\<rparr> \<and>
   set [gpl_change] \<inter> set [unparsed_change] = {} \<and>
   set [gpl_change] \<inter> set [unlicensed_change] = {} \<and>
   set [unparsed_change] \<inter> set [unlicensed_change] = {} \<and>
   vulnerable_change \<notin> set [gpl_change] \<and> vulnerable_change \<notin> set [unparsed_change] \<and>
   vulnerable_change \<notin> set [unlicensed_change]"
proof -
  have r: "getInvalidLicenseChanges singleIdentifier
     [vulnerable_change, gpl_change, unparsed_change, unlicensed_change] [] [''GPL-3.0''] =
     \<lparr>forbidden = [gpl_change], unresolved = [unparsed_change], unlicensed = [unlicensed_change]\<rparr>"
    by code_simp
  have c: "classifyLicense singleIdentifier [] [''GPL-3.0''] vulnerable_change = Compliant"
    by code_simp
  show ?thesis
    using C8_license_buckets_disjoint [of singleIdentifier
        "[vulnerable_change, gpl_change, unparsed_change, unlicensed_change]" "[]" "[''GPL-3.0'']"
        vulnerable_change, unfolded r] c
    by (simp add: r)
qed

subsection \<open>C9: failure wiring of the license block\<close>

text \<open>
  C9, as amended.  When the license check is enabled, a non-empty forbidden bucket
  fails the run iff the fail-on-severity is not none and is reported by a warning
  otherwise, and a non-empty unresolved bucket fails the run whatever the
  fail-on-severity is.  When the license check is disabled the license block prints
  nothing and fails nothing.
\<close>

theorem C9_license_failure_wiring:
  assumes "readConfig_result env = Inr config" and "getRefs_result env = Inr refs"
    and "compare_result env = Inr (Some changes)"
  shows "(SetFailed IncompatibleLicensesDetected \<in> set (events (run env))) =
           (license_check config \<and> fail_on_severity config \<noteq> FailNone \<and>
            forbidden (invalidLicenseChanges (validSpdx env) config changes) \<noteq> []) \<and>
         (Warning IncompatibleLicensesDetected \<in> set (events (run env))) =
           (license_check config \<and> fail_on_severity config = FailNone \<and>
            forbidden (invalidLicenseChanges (validSpdx env) config changes) \<noteq> []) \<and>
         (SetFailed LicenseValidityUndetermined \<in> set (events (run env))) =
           (license_check config \<and>
            unresolved (invalidLicenseChanges (validSpdx env) config changes) \<noteq> []) \<and>
         (license_check config \<and>
            unresolved (invalidLicenseChanges (validSpdx env) config changes) \<noteq> [] \<longrightarrow>
            failed (run env)) \<and>
         (\<not> license_check config \<longrightarrow> \<not> list_ex is_license_output (events (run env)))"
proof (intro conjI impI)
  show "(SetFailed IncompatibleLicensesDetected \<in> set (events (run env))) =
           (license_check config \<and> fail_on_severity config \<noteq> FailNone \<and>
            forbidden (invalidLicenseChanges (validSpdx env) config changes) \<noteq> [])"
    by (auto simp add: run_events_SetFailed [OF assms] pipelineEvents_SetFailed
          failOnVulnerability_def)
  show "(Warning IncompatibleLicensesDetected \<in> set (events (run env))) =
           (license_check config \<and> fail_on_severity config = FailNone \<and>
            forbidden (invalidLicenseChanges (validSpdx env) config changes) \<noteq> [])"
    by (auto simp add: run_events_Warning [OF assms] pipelineEvents_Warning
          failOnVulnerability_def)
  show "(SetFailed LicenseValidityUndetermined \<in> set (events (run env))) =
           (license_check config \<and>
            unresolved (invalidLicenseChanges (validSpdx env) config changes) \<noteq> [])"
    by (auto simp add: run_events_SetFailed [OF assms] pipelineEvents_SetFailed)
next
  assume "license_check config \<and>
          unresolved (invalidLicenseChanges (validSpdx env) config changes) \<noteq> []"
  then show "failed (run env)"
    by (simp add: run_normal(1) [OF assms])
next
  assume off: "\<not> license_check config"
  show "\<not> list_ex is_license_output (events (run env))"
  proof
    assume "list_ex is_license_output (events (run env))"
    then obtain e where e: "e \<in> set (events (run env))" "is_license_output e"
      by (auto simp add: list_ex_iff)
    from run_events_kinds [OF assms e(1)] off e(2) kinds_disjoint(1) [of e]
      kinds_disjoint(3) [OF e(2)]
    show False by auto
  qed
qed

text \<open>
  Fail-on-severity none with a forbidden and an unresolved change: a warning for the
  first, a failure for the second.
\<close>

theorem C9_license_failure_wiring_witness:
  "Warning IncompatibleLicensesDetected
     \<in> set (events (run (world (policy\<lparr>fail_on_severity := FailNone\<rparr>)
                           (Some [gpl_change, unparsed_change])))) \<and>
   SetFailed IncompatibleLicensesDetected
     \<notin> set (events (run (world (policy\<lparr>fail_on_severity := FailNone\<rparr>)
                           (Some [gpl_change, unparsed_change])))) \<and>
   SetFailed LicenseValidityUndetermined
     \<in> set (events (run (world (policy\<lparr>fail_on_severity := FailNone\<rparr>)
                           (Some [gpl_change, unparsed_change])))) \<and>
   failed (run (world (policy\<lparr>fail_on_severity := FailNone\<rparr>)
                  (Some [gpl_change, unparsed_change])))"
proof -
  define quiet_policy where "quiet_policy = policy\<lparr>fail_on_severity := FailNone\<rparr>"
  have c: "fail_on_severity quiet_policy = FailNone" "license_check quiet_policy"
    by (simp_all add: quiet_policy_def policy_def)
  have v: "invalidLicenseChanges singleIdentifier quiet_policy [gpl_change, unparsed_change] =
       \<lparr>forbidden = [gpl_change], unresolved = [unparsed_change], unlicensed = []\<rparr>"
    unfolding quiet_policy_def by code_simp
  show ?thesis
    using C9_license_failure_wiring [of "world quiet_policy (Some [gpl_change, unparsed_change])"
        quiet_policy "(''main'', ''feature'')" "[gpl_change, unparsed_change]"] c
    unfolding quiet_policy_def [symmetric]
    by (simp add: world_simps v)
qed

text \<open>
  C9 as stated fails when the license check is disabled: the unresolved bucket is not
  empty and the run is not failed.
\<close>

theorem C9_unresolved_unchecked_counterexample:
  "unresolved (invalidLicenseChanges singleIdentifier (policy\<lparr>license_check := False\<rparr>)
     [unparsed_change]) \<noteq> [] \<and>
   \<not> failed (run (world (policy\<lparr>license_check := False\<rparr>) (Some [unparsed_change])))"
  by code_simp

subsection \<open>C10: the summary is written once\<close>

text \<open>
  C10 does not hold of the code.  The summary is written exactly once, at the end of the
  run, iff no rejected promise is left without a handler: so it is when a collaborator
  throws and when there is no change set, and it is not when a change is malformed.  The
  error of \<^verbatim>\<open>renderScannedDependency\<close> is thrown in the callback of \<^verbatim>\<open>core.group\<close>, whose
  promise \<^verbatim>\<open>printScannedDependencies\<close> drops; it reaches neither the \<^verbatim>\<open>catch\<close> block
  nor the \<^verbatim>\<open>finally\<close> block, and the process ends before the summary is written.
\<close>

theorem C10_summary_written_iff_no_rejection:
  "(\<exists>es. events (run env) = es @ [SummaryWrite] \<and> SummaryWrite \<notin> set es) =
     (unhandled (run env) = []) \<and>
   (unhandled (run env) \<noteq> [] \<longrightarrow> SummaryWrite \<notin> set (events (run env)))"
proof (cases "readConfig_result env")
  case (Inl e)
  then show ?thesis by (simp add: run_thrown [of env e])
next
  case config: (Inr config)
  show ?thesis
  proof (cases "getRefs_result env")
    case (Inl e)
    with config show ?thesis by (simp add: run_thrown [of env e])
  next
    case refs: (Inr refs)
    show ?thesis
    proof (cases "compare_result env")
      case (Inl e)
      with config refs show ?thesis by (simp add: run_thrown [of env e])
    next
      case (Inr found)
      show ?thesis
      proof (cases found)
        case None
        with config refs Inr show ?thesis by (simp add: run_absent [of env config refs])
      next
        case (Some changes)
        with Inr have c: "compare_result env = Inr (Some changes)" by simp
        obtain scan where scan: "list_all is_scan_line scan"
          "events (run env) =
             pipelineEvents env config changes @ scan @ closingEvents env config changes"
          using run_normal(3) [OF config refs c] by blast
        have u: "(unhandled (run env) \<noteq> []) = (\<exists>c\<in>set changes. malformed c)"
          by (rule run_normal(2) [OF config refs c])
        have p: "SummaryWrite \<notin> set (pipelineEvents env config changes)"
          using pipelineEvents_kinds [of SummaryWrite env config changes] by auto
        have s: "SummaryWrite \<notin> set scan"
          using scan(1) by (rule not_in_list_all) simp
        have k: "SummaryWrite \<notin> set (commentEvents env config)"
          using commentEvents_kinds [of SummaryWrite env config] by auto
        show ?thesis
        proof (cases "\<exists>c\<in>set changes. malformed c")
          case True
          then have "closingEvents env config changes =
                       (if comment_summary_in_pr config then [CommentPr] else [])"
            by (simp add: closingEvents_def list_ex_iff)
          with p s have "SummaryWrite \<notin> set (events (run env))"
            by (simp add: scan(2))
          with True u show ?thesis by auto
        next
          case False
          then have "events (run env) =
                       (pipelineEvents env config changes @ scan @ commentEvents env config) @
                       [SummaryWrite]"
            by (simp add: scan(2) closingEvents_def list_ex_iff)
          moreover have "SummaryWrite \<notin>
              set (pipelineEvents env config changes @ scan @ commentEvents env config)"
            using p s k by simp
          ultimately have "\<exists>es. events (run env) = es @ [SummaryWrite] \<and> SummaryWrite \<notin> set es"
            by blast
          with False u show ?thesis by simp
        qed
      qed
    qed
  qed
qed

text \<open>
  The runs of C10: the comparison answered with status 404 (the summary is written
  after the failure is marked), and a malformed change, without and with the comment on
  the pull request (the process exits with a failure and the summary is not written).
\<close>

theorem C10_summary_written_iff_no_rejection_witness:
  "events (run unreachable_world) = [SetFailed CouldNotObtainDependencyData, SummaryWrite] \<and>
   unhandled (run (world policy (Some [modified_change]))) =
     [Error ''Unexpected change type: modified''] \<and>
   exitFailure (run (world policy (Some [modified_change]))) \<and>
   SummaryWrite \<notin> set (events (run (world policy (Some [modified_change])))) \<and>
   \<not> (\<exists>es. events (run (world policy (Some [modified_change]))) = es @ [SummaryWrite] \<and>
            SummaryWrite \<notin> set es) \<and>
   SummaryWrite
     \<notin> set (events (run (world (policy\<lparr>comment_summary_in_pr := True\<rparr>) (Some [modified_change])))) \<and>
   last (events (run (world (policy\<lparr>comment_summary_in_pr := True\<rparr>) (Some [modified_change])))) =
     CommentPr"
proof -
  have e: "events (run unreachable_world) = [SetFailed CouldNotObtainDependencyData, SummaryWrite]"
    "unhandled (run (world policy (Some [modified_change]))) =
       [Error ''Unexpected change type: modified'']"
    "exitFailure (run (world policy (Some [modified_change])))"
    "unhandled (run (world (policy\<lparr>comment_summary_in_pr := True\<rparr>) (Some [modified_change]))) \<noteq> []"
    "last (events (run (world (policy\<lparr>comment_summary_in_pr := True\<rparr>) (Some [modified_change])))) =
       CommentPr"
    by code_simp+
  show ?thesis
    using C10_summary_written_iff_no_rejection [of "world policy (Some [modified_change])"]
      C10_summary_written_iff_no_rejection
        [of "world (policy\<lparr>comment_summary_in_pr := True\<rparr>) (Some [modified_change])"] e
    by simp
qed

end
